theory Spec2Isabelle
  imports Complex_Main
begin

section \<open>Data model (src/src/db.ts)\<close>

text \<open>
  A MongoDB ObjectId is modelled by the number of its allocation: ids are handed out in
  increasing order, so \<open>sort({_id: -1})\<close> is most-recently-created-first. The hex string
  \<open>_id.toString()\<close> is injective on ObjectIds, so the string kept in \<open>embeddingId\<close> and
  the id of a Pinecone vector are represented by the ObjectId they print.
\<close>

type_synonym oid = nat

text \<open>\<open>userSchema\<close>: username, password, isShared (default false).\<close>

record user =
  u_id :: oid
  username :: string
  password :: string
  isShared :: bool

text \<open>\<open>tagSchema\<close>: a required, unique title.\<close>

record tag =
  t_id :: oid
  tag_title :: string

text \<open>
  \<open>contentSchema\<close>. The type parameter is the element type of \<open>tags\<close>: ObjectIds in a
  stored document, tag documents after \<open>populate("tags", "title")\<close>. The fields without
  \<open>required\<close> are optional.
\<close>

record 't content =
  c_id :: oid
  link :: string
  ctype :: string
  title :: string
  youtubeTitle :: "string option"
  youtubeDescription :: "string option"
  thumbnailUrl :: "string option"
  embeddingId :: "oid option"
  tags :: "'t list"
  userId :: oid

definition contentTypes :: "string list" where
  "contentTypes = [''image'', ''video'', ''article'', ''audio'']"

text \<open>
  Mongoose validation run by \<open>save()\<close>: a required string must be non-empty, \<open>type\<close> must
  be one of \<open>contentTypes\<close>. (\<open>userId\<close> is always present in the model.)
\<close>

definition content_valid :: "oid content \<Rightarrow> bool" where
  "content_valid c \<longleftrightarrow> link c \<noteq> [] \<and> ctype c \<in> set contentTypes \<and> title c \<noteq> []"

text \<open>A Pinecone record: id, values, and the metadata bag written by the add handler.\<close>

record vmeta =
  m_userId :: oid
  m_link :: string
  m_type :: string
  m_title :: string

record vrec =
  v_id :: oid
  v_values :: "real list"
  v_metadata :: vmeta

text \<open>A match of a Pinecone query response; \<open>score\<close> is \<open>number | undefined\<close>.\<close>

record scored =
  match_id :: oid
  score :: "real option"

text \<open>The three MongoDB collections, the Pinecone namespace, and the ObjectId generator.\<close>

record state =
  users :: "user list"
  contents :: "oid content list"
  tagdocs :: "tag list"
  vectors :: "vrec list"
  next_oid :: oid

definition init :: "user list \<Rightarrow> state" where
  "init us = \<lparr>users = us, contents = [], tagdocs = [], vectors = [], next_oid = 0\<rparr>"

section \<open>The outside world\<close>

text \<open>
  Every \<open>await\<close> of the handlers can reject; which ones do is an input of the model.
  The steps of a loop carry the index of the iteration.
\<close>

datatype step =
    TagFindOne nat | TagSave nat | YoutubeGet | GetEmbedding | ContentSave
  | PineconeUpsert | ContentSaveRef
  | ContentFindById | PineconeDeleteOne | ContentExists nat | TagFindByIdAndDelete nat
  | ContentFindByIdAndDelete
  | PineconeQuery | ContentFind | ContentCount | UserFindById | UserSave

text \<open>The \<open>snippet\<close> of a YouTube Data API item; \<open>thumbnails?.default?.url\<close> may be absent.\<close>

record snippet =
  s_title :: string
  s_description :: string
  s_thumbnail :: "string option"

text \<open>
  \<open>fails\<close>: the awaits that reject. \<open>youtube\<close>: the \<open>items\<close> of the videos lookup, by
  video id. \<open>embedding\<close>: the embedding model, text to vector. \<open>similarity\<close>: the metric of
  the Pinecone index. Floating-point numbers are modelled by the reals they denote.
\<close>

record env =
  fails :: "step \<Rightarrow> bool"
  youtube :: "string \<Rightarrow> snippet list"
  embedding :: "string \<Rightarrow> real list"
  similarity :: "real list \<Rightarrow> real list \<Rightarrow> real"

text \<open>
  An HTTP response: \<open>res.status(n).json(body)\<close>. One constructor per shape of body the
  handlers send. The share link is the frontend's base url followed by
  \<open>/shared-brain/\<close> and the user's id; the model keeps the id.
\<close>

record listing =
  l_results :: "tag content list"
  l_total :: nat
  l_page :: int
  l_totalPages :: int
  l_hasNextPage :: bool
  l_hasPrevPage :: bool

record shared_item =
  si_id :: oid
  si_type :: string
  si_link :: string
  si_title :: string
  si_youtubeTitle :: "string option"
  si_youtubeDescription :: "string option"
  si_thumbnailUrl :: "string option"
  si_tags :: "string list"

datatype body =
    Error string
  | Message string
  | Saved string "oid content"
  | Results "tag content list"
  | Listing listing
  | Brain string "shared_item list"
  | ShareLink "oid option"

type_synonym reply = "nat \<times> body"

text \<open>
  An ObjectId arriving in a request as a string: mongoose casts it, and a string that is
  not an ObjectId makes the query reject with a CastError.
\<close>

datatype idparam = Valid oid | Malformed

section \<open>Source-identifier extraction\<close>

text \<open>
  \<open>extractYouTubeVideoId\<close>: the first match of
  \<^verbatim>\<open>/(?:youtube\.com.*(?:\?|&)v=|youtu\.be\/)([a-zA-Z0-9_-]{11})/\<close>
  in the url, its group 1. Strings are modelled with 8-bit characters.
\<close>

definition idChar :: "char \<Rightarrow> bool" where
  "idChar c \<longleftrightarrow>
     c \<in> set ''abcdefghijklmnopqrstuvwxyzABCDEFGHIJKLMNOPQRSTUVWXYZ0123456789_-''"

text \<open>\<open>([a-zA-Z0-9_-]{11})\<close> at the front of the string.\<close>

definition videoIdAt :: "string \<Rightarrow> string option" where
  "videoIdAt s =
     (if 11 \<le> length s \<and> list_all idChar (take 11 s) then Some (take 11 s) else None)"

text \<open>The dot of a regular expression matches anything but a line terminator.\<close>

definition lineTerminator :: "char \<Rightarrow> bool" where
  "lineTerminator c \<longleftrightarrow> c = CHR 0x0A \<or> c = CHR 0x0D"

text \<open>
  \<^verbatim>\<open>.*(?:\?|&)v=([a-zA-Z0-9_-]{11})\<close> at the front of the string. The star is greedy:
  it takes the character when the rest still matches, and stops here otherwise.
\<close>

fun afterHost :: "string \<Rightarrow> string option" where
  "afterHost [] = None"
| "afterHost (c # cs) =
     (case (if lineTerminator c then None else afterHost cs) of
        Some v \<Rightarrow> Some v
      | None \<Rightarrow>
          if (c = CHR ''?'' \<or> c = CHR ''&'') \<and> take 2 cs = ''v='' then videoIdAt (drop 2 cs)
          else None)"

text \<open>The whole pattern at the front of the string: the first alternative is tried first.\<close>

definition matchHere :: "string \<Rightarrow> string option" where
  "matchHere s =
     (case (if take 11 s = ''youtube.com'' then afterHost (drop 11 s) else None) of
        Some v \<Rightarrow> Some v
      | None \<Rightarrow> if take 9 s = ''youtu.be/'' then videoIdAt (drop 9 s) else None)"

fun extractYouTubeVideoId :: "string \<Rightarrow> string option" where
  "extractYouTubeVideoId [] = matchHere []"
| "extractYouTubeVideoId (c # cs) =
     (case matchHere (c # cs) of
        Some v \<Rightarrow> Some v
      | None \<Rightarrow> extractYouTubeVideoId cs)"

section \<open>Tag registry: getTagIds\<close>

text \<open>
  The loop of \<open>getTagIds\<close> from iteration \<open>i\<close> on: the ids of the titles, or \<open>None\<close> when
  an await rejected, and the state left behind. \<open>new Tag\<close> draws a fresh ObjectId;
  \<open>save()\<close> rejects an empty title (the schema requires it).
\<close>

fun getTagIds :: "env \<Rightarrow> nat \<Rightarrow> string list \<Rightarrow> state \<Rightarrow> oid list option \<times> state" where
  "getTagIds e i [] s = (Some [], s)"
| "getTagIds e i (tagTitle # rest) s =
     (if fails e (TagFindOne i) then (None, s)
      else (case find (\<lambda>t. tag_title t = tagTitle) (tagdocs s) of
        Some tagDoc \<Rightarrow>
          (case getTagIds e (Suc i) rest s of
             (None, s') \<Rightarrow> (None, s')
           | (Some ids, s') \<Rightarrow> (Some (t_id tagDoc # ids), s'))
      | None \<Rightarrow>
          (let tagDoc = \<lparr>t_id = next_oid s, tag_title = tagTitle\<rparr>;
               s1 = s\<lparr>next_oid := Suc (next_oid s)\<rparr>
           in if tagTitle = [] \<or> fails e (TagSave i) then (None, s1)
              else (case getTagIds e (Suc i) rest (s1\<lparr>tagdocs := tagdocs s1 @ [tagDoc]\<rparr>) of
                 (None, s') \<Rightarrow> (None, s')
               | (Some ids, s') \<Rightarrow> (Some (t_id tagDoc # ids), s')))))"

section \<open>Vector index (Pinecone)\<close>

text \<open>
  Modelled from the spec: the Pinecone service is not part of the repository. Section 4.4
  of the specification gives its contract: \<open>upsert\<close> replaces the entry of the same id,
  \<open>delete\<close> of an id that is not there is not an error, and \<open>query\<close> returns at most
  \<open>topK\<close> scored ids, the highest similarity first.
\<close>

definition pinecone_upsert :: "vrec \<Rightarrow> vrec list \<Rightarrow> vrec list" where
  "pinecone_upsert r vs = filter (\<lambda>v. v_id v \<noteq> v_id r) vs @ [r]"

definition pinecone_deleteOne :: "oid \<Rightarrow> vrec list \<Rightarrow> vrec list" where
  "pinecone_deleteOne i vs = filter (\<lambda>v. v_id v \<noteq> i) vs"

definition pinecone_query :: "env \<Rightarrow> vrec list \<Rightarrow> real list \<Rightarrow> nat \<Rightarrow> scored list" where
  "pinecone_query e vs q topK =
     map (\<lambda>(x, i). \<lparr>match_id = i, score = Some x\<rparr>)
       (take topK (sort_key (\<lambda>(x, i). - x) (map (\<lambda>v. (similarity e q (v_values v), v_id v)) vs)))"

section \<open>Document store queries\<close>

text \<open>
  \<open>populate("tags", "title")\<close>: every tag id is replaced by its document; an id with no
  document is dropped from the array.
\<close>

definition populate :: "tag list \<Rightarrow> oid content \<Rightarrow> tag content" where
  "populate ts c =
     \<lparr>c_id = c_id c, link = link c, ctype = ctype c, title = title c,
      youtubeTitle = youtubeTitle c, youtubeDescription = youtubeDescription c,
      thumbnailUrl = thumbnailUrl c, embeddingId = embeddingId c,
      tags = List.map_filter (\<lambda>i. find (\<lambda>t. t_id t = i) ts) (tags c),
      userId = userId c\<rparr>"

text \<open>\<open>Content.find({ embeddingId: { $in: ids }, userId })\<close>.\<close>

definition findByVectorRefs :: "oid list \<Rightarrow> oid \<Rightarrow> state \<Rightarrow> oid content list" where
  "findByVectorRefs ids uid s =
     filter (\<lambda>c. (case embeddingId c of None \<Rightarrow> False | Some r \<Rightarrow> r \<in> set ids) \<and> userId c = uid)
       (contents s)"

text \<open>
  \<open>.skip(sk).limit(lm)\<close> on a sorted cursor. MongoDB rejects a negative skip; the driver
  sends a negative limit as its absolute value, and a limit of 0 is no limit.
\<close>

definition skip_limit :: "int \<Rightarrow> int \<Rightarrow> 'a list \<Rightarrow> 'a list option" where
  "skip_limit sk lm xs =
     (if sk < 0 then None
      else if lm = 0 then Some (drop (nat sk) xs)
      else Some (take (nat \<bar>lm\<bar>) (drop (nat sk) xs)))"

section \<open>Ingestion: POST /api/v1/content\<close>

record add_req =
  r_link :: string
  r_type :: string
  r_title :: string
  r_tags :: "string list"

definition serverError :: reply where
  "serverError = (500, Error ''Server error.'')"

definition internalError :: reply where
  "internalError = (500, Error ''Internal Server Error'')"

text \<open>
  The tail of the handler, from \<open>await newContent.save()\<close> on: the document is saved
  without \<open>embeddingId\<close>, the vector is upserted under the document's id, and the document
  is saved again with \<open>embeddingId\<close> set. A rejected await lands in the handler's one
  \<open>catch\<close>.
\<close>

definition saveContent :: "env \<Rightarrow> oid content \<Rightarrow> real list \<Rightarrow> state \<Rightarrow> reply \<times> state" where
  "saveContent e newContent embeddingVector s =
     (if \<not> content_valid newContent \<or> fails e ContentSave then (serverError, s)
      else
        let s1 = s\<lparr>contents := contents s @ [newContent]\<rparr>;
            vectorId = c_id newContent
        in if fails e PineconeUpsert then (serverError, s1)
           else
             let s2 = s1\<lparr>vectors := pinecone_upsert
                        \<lparr>v_id = vectorId, v_values = embeddingVector,
                         v_metadata = \<lparr>m_userId = userId newContent, m_link = link newContent,
                            m_type = ctype newContent, m_title = title newContent\<rparr>\<rparr>
                        (vectors s1)\<rparr>;
                 saved = newContent\<lparr>embeddingId := Some vectorId\<rparr>
             in if fails e ContentSaveRef then (serverError, s2)
                else ((201, Saved ''Content saved with embedding!'' saved),
                      s2\<lparr>contents := map (\<lambda>c. if c_id c = vectorId then saved else c) (contents s2)\<rparr>))"

definition addItem :: "env \<Rightarrow> oid \<Rightarrow> add_req \<Rightarrow> state \<Rightarrow> reply \<times> state" where
  "addItem e uid req s =
     (case getTagIds e 0 (r_tags req) s of
        (None, s1) \<Rightarrow> (serverError, s1)
      | (Some tagObjectIds, s1) \<Rightarrow>
          (case extractYouTubeVideoId (r_link req) of
             None \<Rightarrow> ((400, Error ''Invalid YouTube link.''), s1)
           | Some videoId \<Rightarrow>
               if fails e YoutubeGet then (serverError, s1)
               else (case youtube e videoId of
                 [] \<Rightarrow> ((404, Error ''YouTube video not found.''), s1)
               | sn # _ \<Rightarrow>
                   let youtubeTitle = s_title sn;
                       youtubeDescription = s_description sn;
                       thumbnailUrl = (case s_thumbnail sn of None \<Rightarrow> [] | Some u \<Rightarrow> u);
                       embeddingText = r_title req @ '','' @ youtubeTitle @ '','' @ youtubeDescription
                   in if fails e GetEmbedding then (serverError, s1)
                      else
                        let embeddingVector = embedding e embeddingText;
                            newContent =
                              \<lparr>c_id = next_oid s1, link = r_link req, ctype = r_type req,
                               title = r_title req, youtubeTitle = Some youtubeTitle,
                               youtubeDescription = Some youtubeDescription,
                               thumbnailUrl = Some thumbnailUrl, embeddingId = None,
                               tags = tagObjectIds, userId = uid\<rparr>
                        in saveContent e newContent embeddingVector
                             (s1\<lparr>next_oid := Suc (next_oid s1)\<rparr>))))"

section \<open>Listing: GET /api/v1/content\<close>

text \<open>
  \<open>Number(q) || d\<close>: a parameter that is absent or not a number gives \<open>NaN\<close>, which is
  falsy as 0 is. The model covers integer parameters.
\<close>

definition orDefault :: "int option \<Rightarrow> int \<Rightarrow> int" where
  "orDefault q d = (case q of None \<Rightarrow> d | Some n \<Rightarrow> if n = 0 then d else n)"

definition pageOf :: "int option \<Rightarrow> int" where
  "pageOf q = max 1 (orDefault q 1)"

definition limitOf :: "int option \<Rightarrow> int" where
  "limitOf q = min 8 (orDefault q 8)"

text \<open>The cursor of the handler: the owner's documents, \<open>sort({_id: -1})\<close>.\<close>

definition ownedNewestFirst :: "oid \<Rightarrow> state \<Rightarrow> oid content list" where
  "ownedNewestFirst uid s = rev (sort_key c_id (filter (\<lambda>c. userId c = uid) (contents s)))"

definition listItems :: "env \<Rightarrow> oid \<Rightarrow> int option \<Rightarrow> int option \<Rightarrow> state \<Rightarrow> reply" where
  "listItems e uid qpage qlimit s =
     (let page = pageOf qpage; limit = limitOf qlimit in
      if fails e ContentFind \<or> fails e ContentCount then internalError
      else (case skip_limit ((page - 1) * limit) limit (ownedNewestFirst uid s) of
        None \<Rightarrow> internalError
      | Some found \<Rightarrow>
          let total = length (filter (\<lambda>c. userId c = uid) (contents s)) in
          (200, Listing
             \<lparr>l_results = map (populate (tagdocs s)) found, l_total = total, l_page = page,
              l_totalPages = - ((- int total) div limit),
              l_hasNextPage = (page * limit < int total), l_hasPrevPage = (1 < page)\<rparr>)))"

section \<open>Deletion: DELETE /api/v1/content\<close>

text \<open>\<open>Content.exists({ _id: { $ne: contentId }, tags: tagId })\<close>.\<close>

definition isTagUsedElsewhere :: "oid \<Rightarrow> oid \<Rightarrow> state \<Rightarrow> bool" where
  "isTagUsedElsewhere contentId tagId s \<longleftrightarrow>
     list_ex (\<lambda>c. c_id c \<noteq> contentId \<and> tagId \<in> set (tags c)) (contents s)"

text \<open>
  The loop over the tags of the document from iteration \<open>i\<close> on: a tag that no other
  document holds is deleted. The flag is false when an await rejected.
\<close>

fun sweepTags :: "env \<Rightarrow> oid \<Rightarrow> nat \<Rightarrow> oid list \<Rightarrow> state \<Rightarrow> bool \<times> state" where
  "sweepTags e contentId i [] s = (True, s)"
| "sweepTags e contentId i (tagId # rest) s =
     (if fails e (ContentExists i) then (False, s)
      else if isTagUsedElsewhere contentId tagId s
      then sweepTags e contentId (Suc i) rest s
      else if fails e (TagFindByIdAndDelete i) then (False, s)
      else sweepTags e contentId (Suc i) rest
             (s\<lparr>tagdocs := filter (\<lambda>t. t_id t \<noteq> tagId) (tagdocs s)\<rparr>))"

definition deleteItem :: "env \<Rightarrow> oid \<Rightarrow> idparam option \<Rightarrow> state \<Rightarrow> reply \<times> state" where
  "deleteItem e uid contentId s =
     (case contentId of
        None \<Rightarrow> ((400, Error ''contentId is required''), s)
      | Some Malformed \<Rightarrow> (internalError, s)
      | Some (Valid cid) \<Rightarrow>
          if fails e ContentFindById then (internalError, s)
          else (case find (\<lambda>c. c_id c = cid) (contents s) of
            None \<Rightarrow> ((404, Error ''Content not found''), s)
          | Some content \<Rightarrow>
              if userId content \<noteq> uid
              then ((403, Error ''Forbidden: Cannot delete content you do not own''), s)
              else
                let s1 = (case embeddingId content of
                            None \<Rightarrow> s
                          | Some ref \<Rightarrow>
                              if fails e PineconeDeleteOne then s
                              else s\<lparr>vectors := pinecone_deleteOne ref (vectors s)\<rparr>)
                in (case sweepTags e cid 0 (tags content) s1 of
                  (False, s2) \<Rightarrow> (internalError, s2)
                | (True, s2) \<Rightarrow>
                    if fails e ContentFindByIdAndDelete then (internalError, s2)
                    else ((200, Message ''Delete succeeded''),
                          s2\<lparr>contents := filter (\<lambda>c. c_id c \<noteq> cid) (contents s2)\<rparr>))))"

section \<open>Retrieval: GET /api/v1/search\<close>

text \<open>
  The literal \<open>0.4\<close> denotes the nearest double, \<open>3602879701896397 / 2^53\<close>, which lies just
  above four tenths.
\<close>

definition scoreThreshold :: real where
  "scoreThreshold = 3602879701896397 / 9007199254740992"

definition aboveThreshold :: "scored \<Rightarrow> bool" where
  "aboveThreshold m = (case score m of None \<Rightarrow> False | Some x \<Rightarrow> scoreThreshold \<le> x)"

text \<open>The query parameter \<open>q\<close> is \<open>None\<close> when it is absent or not a single string.\<close>

definition search :: "env \<Rightarrow> oid \<Rightarrow> string option \<Rightarrow> state \<Rightarrow> reply" where
  "search e uid q s =
     (case q of
        None \<Rightarrow> (400, Error ''Missing or invalid query parameter 'q' '')
      | Some queryText \<Rightarrow>
          if queryText = [] then (400, Error ''Missing or invalid query parameter 'q' '')
          else if fails e GetEmbedding \<or> fails e PineconeQuery then internalError
          else
            let queryEmbedding = embedding e queryText;
                matches = pinecone_query e (vectors s) queryEmbedding 5;
                filteredMatches = filter aboveThreshold matches
            in if filteredMatches = [] then (200, Results [])
               else if fails e ContentFind then internalError
               else (200, Results (map (populate (tagdocs s))
                       (findByVectorRefs (map match_id filteredMatches) uid s))))"

section \<open>Sharing\<close>

text \<open>\<open>POST /api/v1/brain/share\<close>; \<open>share\<close> is \<open>None\<close> when the field is not a boolean.\<close>

definition setShared :: "env \<Rightarrow> oid \<Rightarrow> bool option \<Rightarrow> state \<Rightarrow> reply \<times> state" where
  "setShared e uid share s =
     (case share of
        None \<Rightarrow> ((400, Error ''Field 'share' must be boolean.''), s)
      | Some b \<Rightarrow>
          if fails e UserFindById then (internalError, s)
          else (case find (\<lambda>u. u_id u = uid) (users s) of
            None \<Rightarrow> ((404, Error ''User not found.''), s)
          | Some u \<Rightarrow>
              if fails e UserSave then (internalError, s)
              else ((200, ShareLink (if b then Some (u_id u) else None)),
                    s\<lparr>users := map (\<lambda>v. if u_id v = uid then v\<lparr>isShared := b\<rparr> else v) (users s)\<rparr>)))"

text \<open>The projection of the shared view: the fields the handler copies, tags by title.\<close>

definition formatContent :: "tag content \<Rightarrow> shared_item" where
  "formatContent c =
     \<lparr>si_id = c_id c, si_type = ctype c, si_link = link c, si_title = title c,
      si_youtubeTitle = youtubeTitle c, si_youtubeDescription = youtubeDescription c,
      si_thumbnailUrl = thumbnailUrl c, si_tags = map tag_title (tags c)\<rparr>"

definition brainNotFound :: reply where
  "brainNotFound = (404, Error ''Shared brain not found or sharing disabled.'')"

definition getSharedView :: "env \<Rightarrow> idparam \<Rightarrow> state \<Rightarrow> reply" where
  "getSharedView e shareLink s =
     (case shareLink of
        Malformed \<Rightarrow> internalError
      | Valid i \<Rightarrow>
          if fails e UserFindById then internalError
          else (case find (\<lambda>u. u_id u = i) (users s) of
            None \<Rightarrow> brainNotFound
          | Some u \<Rightarrow>
              if \<not> isShared u then brainNotFound
              else if fails e ContentFind then internalError
              else (200, Brain (username u)
                      (map (formatContent \<circ> populate (tagdocs s))
                         (filter (\<lambda>c. userId c = u_id u) (contents s))))))"

section \<open>Embedding client: getEmbedding\<close>

text \<open>
  A call of \<open>getEmbedding\<close> runs to its first \<open>await\<close> without interruption, and other
  calls run while it waits. A caller is at one of four points: not yet called, waiting for
  \<open>pipeline(...)\<close>, waiting for \<open>embedder(text, ...)\<close>, returned. The module state is the
  variable \<open>embedder\<close> (\<open>null\<close> or a model); \<open>pipeline_calls\<close> counts the model loads started.
\<close>

datatype caller = NotCalled | AwaitPipeline | AwaitEmbedder | Returned

record embedder_state =
  embedder :: bool
  pipeline_calls :: nat
  callers :: "caller list"

text \<open>Caller \<open>k\<close> runs up to its next \<open>await\<close>.\<close>

definition getEmbedding_step :: "nat \<Rightarrow> embedder_state \<Rightarrow> embedder_state" where
  "getEmbedding_step k st =
     (if length (callers st) \<le> k then st
      else case callers st ! k of
        NotCalled \<Rightarrow>
          if \<not> embedder st
          then st\<lparr>pipeline_calls := Suc (pipeline_calls st),
                  callers := (callers st)[k := AwaitPipeline]\<rparr>
          else st\<lparr>callers := (callers st)[k := AwaitEmbedder]\<rparr>
      | AwaitPipeline \<Rightarrow> st\<lparr>embedder := True, callers := (callers st)[k := AwaitEmbedder]\<rparr>
      | AwaitEmbedder \<Rightarrow> st\<lparr>callers := (callers st)[k := Returned]\<rparr>
      | Returned \<Rightarrow> st)"

text \<open>A schedule names the caller that runs next.\<close>

fun run :: "nat list \<Rightarrow> embedder_state \<Rightarrow> embedder_state" where
  "run [] st = st"
| "run (k # ks) st = run ks (getEmbedding_step k st)"

definition fresh_process :: "nat \<Rightarrow> embedder_state" where
  "fresh_process n = \<lparr>embedder = False, pipeline_calls = 0, callers = replicate n NotCalled\<rparr>"

section \<open>Reachable states\<close>

text \<open>
  The states the handlers can produce from empty stores, whatever the outside world does.
  User accounts are created by signup, which is outside the model: any user list starts.
\<close>

inductive reachable :: "state \<Rightarrow> bool" where
  r_init: "reachable (init us)"
| r_add: "reachable s \<Longrightarrow> reachable (snd (addItem e uid req s))"
| r_delete: "reachable s \<Longrightarrow> reachable (snd (deleteItem e uid cid s))"
| r_share: "reachable s \<Longrightarrow> reachable (snd (setShared e uid share s))"

section \<open>Store invariants\<close>

text \<open>
  Document ids are unique and older than the generator, and a vector reference, once set,
  is the document's own id.
\<close>

definition contents_inv :: "state \<Rightarrow> bool" where
  "contents_inv s \<longleftrightarrow>
     distinct (map c_id (contents s)) \<and>
     (\<forall>c \<in> set (contents s).
        c_id c < next_oid s \<and> (embeddingId c = None \<or> embeddingId c = Some (c_id c)))"

text \<open>Tag ids and tag titles are unique.\<close>

definition tags_inv :: "state \<Rightarrow> bool" where
  "tags_inv s \<longleftrightarrow>
     distinct (map t_id (tagdocs s)) \<and> distinct (map tag_title (tagdocs s)) \<and>
     (\<forall>t \<in> set (tagdocs s). t_id t < next_oid s)"

definition store_inv :: "state \<Rightarrow> bool" where
  "store_inv s \<longleftrightarrow> contents_inv s \<and> tags_inv s \<and> distinct (map v_id (vectors s))"

section \<open>Example inputs\<close>

text \<open>
  An outside world in which no await rejects: YouTube knows one video, the embedding of a
  text is its length, and two vectors are the more similar the closer their sums are.
\<close>

definition quiet :: env where
  "quiet =
     \<lparr>fails = (\<lambda>_. False),
      youtube = (\<lambda>v. if v = ''abc12345678''
                      then [\<lparr>s_title = ''T'', s_description = ''D'', s_thumbnail = None\<rparr>]
                      else []),
      embedding = (\<lambda>t. [real (length t)]),
      similarity = (\<lambda>a b. 1 - \<bar>sum_list a - sum_list b\<bar> / 10)\<rparr>"

text \<open>The same world, with one await that rejects.\<close>

definition failing :: "step \<Rightarrow> env" where
  "failing st = quiet\<lparr>fails := (\<lambda>x. x = st)\<rparr>"

definition demo_req :: "string \<Rightarrow> string list \<Rightarrow> add_req" where
  "demo_req ttl tgs =
     \<lparr>r_link = ''https://youtu.be/abc12345678'', r_type = ''video'', r_title = ttl, r_tags = tgs\<rparr>"

text \<open>A request for ``demo'' with the given link.\<close>

definition link_req :: "string \<Rightarrow> string list \<Rightarrow> add_req" where
  "link_req lnk tgs = \<lparr>r_link = lnk, r_type = ''video'', r_title = ''demo'', r_tags = tgs\<rparr>"

text \<open>
  The stores after owner 1 has added ``demo'' with the tags x and y, and owner 2 ``dem''
  with the tag x.
\<close>

definition item_a :: "oid content" where
  "item_a =
     \<lparr>c_id = 2, link = ''https://youtu.be/abc12345678'', ctype = ''video'', title = ''demo'',
      youtubeTitle = Some ''T'', youtubeDescription = Some ''D'', thumbnailUrl = Some [],
      embeddingId = Some 2, tags = [0, 1], userId = 1\<rparr>"

definition item_b :: "oid content" where
  "item_b =
     \<lparr>c_id = 3, link = ''https://youtu.be/abc12345678'', ctype = ''video'', title = ''dem'',
      youtubeTitle = Some ''T'', youtubeDescription = Some ''D'', thumbnailUrl = Some [],
      embeddingId = Some 3, tags = [0], userId = 2\<rparr>"

definition two_owners :: state where
  "two_owners =
     \<lparr>users = [],
      contents = [item_a, item_b],
      tagdocs = [\<lparr>t_id = 0, tag_title = ''x''\<rparr>, \<lparr>t_id = 1, tag_title = ''y''\<rparr>],
      vectors =
        [\<lparr>v_id = 2, v_values = [8],
          v_metadata = \<lparr>m_userId = 1, m_link = ''https://youtu.be/abc12345678'',
                         m_type = ''video'', m_title = ''demo''\<rparr>\<rparr>,
         \<lparr>v_id = 3, v_values = [7],
          v_metadata = \<lparr>m_userId = 2, m_link = ''https://youtu.be/abc12345678'',
                         m_type = ''video'', m_title = ''dem''\<rparr>\<rparr>],
      next_oid = 4\<rparr>"

text \<open>The same stores with two accounts: ann shares her brain, bob does not.\<close>

definition with_accounts :: state where
  "with_accounts =
     two_owners\<lparr>users :=
       [\<lparr>u_id = 1, username = ''ann'', password = ''h1'', isShared = True\<rparr>,
        \<lparr>u_id = 2, username = ''bob'', password = ''h2'', isShared = False\<rparr>]\<rparr>"

section \<open>Invariant preservation\<close>

lemma getTagIds_frame:
  "getTagIds e i ts s = (r, s') \<Longrightarrow>
     contents s' = contents s \<and> vectors s' = vectors s \<and> users s' = users s \<and>
     next_oid s \<le> next_oid s'"
proof (induction ts arbitrary: i s r s')
  case Nil
  then show ?case by simp
next
  case (Cons a ts)
  then show ?case
    by (fastforce simp: Let_def split: if_splits option.splits prod.splits)
qed

lemma find_title_None: "find (\<lambda>t. tag_title t = x) ts = None \<Longrightarrow> x \<notin> tag_title ` set ts"
  by (auto simp: find_None_iff)

lemma tags_inv_new:
  assumes "tags_inv s" "find (\<lambda>t. tag_title t = x) (tagdocs s) = None"
  shows "tags_inv (s\<lparr>next_oid := Suc (next_oid s),
                     tagdocs := tagdocs s @ [\<lparr>t_id = next_oid s, tag_title = x\<rparr>]\<rparr>)"
  using assms find_title_None[OF assms(2)]
  by (auto simp: tags_inv_def less_Suc_eq)

lemma tags_inv_skip: "tags_inv s \<Longrightarrow> tags_inv (s\<lparr>next_oid := Suc (next_oid s)\<rparr>)"
  by (auto simp: tags_inv_def less_Suc_eq)

lemma getTagIds_tags_inv:
  "tags_inv s \<Longrightarrow> getTagIds e i ts s = (r, s') \<Longrightarrow> tags_inv s'"
proof (induction ts arbitrary: i s r s')
  case Nil
  then show ?case by simp
next
  case (Cons a ts)
  show ?case
  proof (cases "fails e (TagFindOne i)")
    case True
    with Cons.prems show ?thesis by simp
  next
    case nf: False
    show ?thesis
    proof (cases "find (\<lambda>t. tag_title t = a) (tagdocs s)")
      case (Some tagDoc)
      with nf Cons.prems obtain r0 where "getTagIds e (Suc i) ts s = (r0, s')"
        by (auto split: prod.splits option.splits)
      from Cons.IH[OF Cons.prems(1) this] show ?thesis .
    next
      case None
      show ?thesis
      proof (cases "a = [] \<or> fails e (TagSave i)")
        case True
        with nf None Cons.prems have "s' = s\<lparr>next_oid := Suc (next_oid s)\<rparr>"
          by (auto simp: Let_def)
        with tags_inv_skip[OF Cons.prems(1)] show ?thesis by simp
      next
        case False
        let ?s2 = "s\<lparr>next_oid := Suc (next_oid s),
                     tagdocs := tagdocs s @ [\<lparr>t_id = next_oid s, tag_title = a\<rparr>]\<rparr>"
        from False nf None Cons.prems obtain r0 where "getTagIds e (Suc i) ts ?s2 = (r0, s')"
          by (auto simp: Let_def split: prod.splits option.splits)
        from Cons.IH[OF tags_inv_new[OF Cons.prems(1) None] this] show ?thesis .
      qed
    qed
  qed
qed


lemma getTagIds_mono:
  "getTagIds e i ts s = (r, s') \<Longrightarrow> set (tagdocs s) \<subseteq> set (tagdocs s')"
proof (induction ts arbitrary: i s r s')
  case Nil
  then show ?case by simp
next
  case (Cons a ts)
  then show ?case
    by (fastforce simp: Let_def split: if_splits option.splits prod.splits)
qed

lemma getTagIds_Cons_Some:
  assumes "getTagIds e i (a # ts) s = (Some ids, s')"
  obtains k ids' s1 where "ids = k # ids'" "getTagIds e (Suc i) ts s1 = (Some ids', s')"
    "\<exists>t \<in> set (tagdocs s1). t_id t = k \<and> tag_title t = a"
proof (cases "find (\<lambda>t. tag_title t = a) (tagdocs s)")
  case None
  let ?s2 = "s\<lparr>next_oid := Suc (next_oid s),
               tagdocs := tagdocs s @ [\<lparr>t_id = next_oid s, tag_title = a\<rparr>]\<rparr>"
  from None assms obtain ids' where "ids = next_oid s # ids'"
    "getTagIds e (Suc i) ts ?s2 = (Some ids', s')"
    by (auto simp: Let_def split: if_splits prod.splits option.splits)
  moreover have "\<exists>t \<in> set (tagdocs ?s2). t_id t = next_oid s \<and> tag_title t = a"
    by simp
  ultimately show ?thesis using that by blast
next
  case (Some tagDoc)
  with assms obtain ids' where "ids = t_id tagDoc # ids'"
    "getTagIds e (Suc i) ts s = (Some ids', s')"
    by (auto split: if_splits prod.splits option.splits)
  moreover from Some have "tagDoc \<in> set (tagdocs s) \<and> tag_title tagDoc = a"
    by (auto simp: find_Some_iff)
  ultimately show ?thesis using that by blast
qed

lemma getTagIds_resolves:
  "getTagIds e i ts s = (Some ids, s') \<Longrightarrow>
     list_all2 (\<lambda>k x. \<exists>t \<in> set (tagdocs s'). t_id t = k \<and> tag_title t = x) ids ts"
proof (induction ts arbitrary: i s ids)
  case Nil
  then show ?case by simp
next
  case (Cons a ts)
  from Cons.prems obtain k ids' s1 where ids: "ids = k # ids'"
    and rest: "getTagIds e (Suc i) ts s1 = (Some ids', s')"
    and hd: "\<exists>t \<in> set (tagdocs s1). t_id t = k \<and> tag_title t = a"
    by (rule getTagIds_Cons_Some)
  from getTagIds_mono[OF rest] hd
  have "\<exists>t \<in> set (tagdocs s'). t_id t = k \<and> tag_title t = a" by blast
  with Cons.IH[OF rest] ids show ?case by simp
qed

lemma contents_inv_mono:
  "contents_inv s \<Longrightarrow> contents s' = contents s \<Longrightarrow> next_oid s \<le> next_oid s' \<Longrightarrow> contents_inv s'"
  by (fastforce simp: contents_inv_def)

lemma distinct_upsert: "distinct (map v_id vs) \<Longrightarrow> distinct (map v_id (pinecone_upsert r vs))"
  by (auto simp: pinecone_upsert_def distinct_map_filter)

lemma distinct_deleteOne: "distinct (map v_id vs) \<Longrightarrow> distinct (map v_id (pinecone_deleteOne i vs))"
  by (simp add: pinecone_deleteOne_def distinct_map_filter)

lemma contents_inv_append:
  assumes "contents_inv s" "c_id c \<notin> c_id ` set (contents s)" "c_id c < next_oid s"
    "embeddingId c = None"
  shows "contents_inv (s\<lparr>contents := contents s @ [c]\<rparr>)"
  using assms by (auto simp: contents_inv_def)

lemma map_c_id_replace:
  "c_id d = i \<Longrightarrow> map (c_id \<circ> (\<lambda>c. if c_id c = i then d else c)) cs = map c_id cs"
  by (induction cs) auto

lemma contents_inv_backfill:
  assumes "contents_inv s" "embeddingId d = Some (c_id d)" "c_id d < next_oid s"
  shows "contents_inv (s\<lparr>contents := map (\<lambda>c. if c_id c = c_id d then d else c) (contents s)\<rparr>)"
  using assms by (auto simp: contents_inv_def map_c_id_replace)

lemma saveContent_frame:
  "saveContent e c v s = (r, s') \<Longrightarrow>
     tagdocs s' = tagdocs s \<and> users s' = users s \<and> next_oid s' = next_oid s"
  by (auto simp: saveContent_def Let_def split: if_splits)

lemma saveContent_inv:
  assumes "contents_inv s" "distinct (map v_id (vectors s))"
    "c_id c \<notin> c_id ` set (contents s)" "c_id c < next_oid s" "embeddingId c = None"
    "saveContent e c v s = (r, s')"
  shows "contents_inv s' \<and> distinct (map v_id (vectors s'))"
proof -
  let ?s1 = "s\<lparr>contents := contents s @ [c]\<rparr>"
  have i1: "contents_inv ?s1" using assms(1,3,4,5) by (rule contents_inv_append)
  let ?r = "\<lparr>v_id = c_id c, v_values = v,
         v_metadata = \<lparr>m_userId = userId c, m_link = link c, m_type = ctype c, m_title = title c\<rparr>\<rparr>"
  let ?s2 = "?s1\<lparr>vectors := pinecone_upsert ?r (vectors ?s1)\<rparr>"
  have i2: "contents_inv ?s2" using i1 by (simp add: contents_inv_def)
  have v2: "distinct (map v_id (vectors ?s2))" using assms(2) by (simp add: distinct_upsert)
  let ?d = "c\<lparr>embeddingId := Some (c_id c)\<rparr>"
  have i3: "contents_inv (?s2\<lparr>contents := map (\<lambda>x. if c_id x = c_id ?d then ?d else x) (contents ?s2)\<rparr>)"
    by (rule contents_inv_backfill[OF i2]) (use assms(4) in simp_all)
  from assms(6) consider "s' = s" | "s' = ?s1" | "s' = ?s2"
    | "s' = ?s2\<lparr>contents := map (\<lambda>x. if c_id x = c_id c then ?d else x) (contents ?s2)\<rparr>"
    by (auto simp: saveContent_def Let_def split: if_splits)
  then show ?thesis
  proof cases
    case 1 with assms(1,2) show ?thesis by simp
  next
    case 2 with i1 assms(2) show ?thesis by simp
  next
    case 3 with i2 v2 show ?thesis by simp
  next
    case 4 with i3 v2 show ?thesis by simp
  qed
qed

lemma addItem_inv:
  assumes "store_inv s"
  shows "store_inv (snd (addItem e uid req s))"
proof -
  obtain r0 s1 where g: "getTagIds e 0 (r_tags req) s = (r0, s1)" by (cases "getTagIds e 0 (r_tags req) s")
  from assms have ci: "contents_inv s" and ti: "tags_inv s" and vi: "distinct (map v_id (vectors s))"
    by (simp_all add: store_inv_def)
  note fr = getTagIds_frame[OF g]
  have ci1: "contents_inv s1" using ci fr by (auto intro: contents_inv_mono)
  have ti1: "tags_inv s1" using ti g by (rule getTagIds_tags_inv)
  have vi1: "distinct (map v_id (vectors s1))" using vi fr by simp
  have inv1: "store_inv s1" using ci1 ti1 vi1 by (simp add: store_inv_def)
  let ?s1' = "s1\<lparr>next_oid := Suc (next_oid s1)\<rparr>"
  have ci1': "contents_inv ?s1'" using ci1 by (auto intro: contents_inv_mono)
  have fresh: "next_oid s1 \<notin> c_id ` set (contents ?s1')"
    using ci1 by (auto simp: contents_inv_def)
  have sc: "store_inv s'" if "saveContent e c v ?s1' = (r, s')" "c_id c = next_oid s1" "embeddingId c = None"
    for c v r s'
  proof -
    have "contents_inv s' \<and> distinct (map v_id (vectors s'))"
      by (rule saveContent_inv[OF ci1' _ _ _ that(3) that(1)]) (use vi1 fresh that(2) in simp_all)
    moreover have "tags_inv s'"
      using saveContent_frame[OF that(1)] tags_inv_skip[OF ti1] by (simp add: tags_inv_def)
    ultimately show ?thesis by (simp add: store_inv_def)
  qed
  show ?thesis
    using g inv1
    by (auto simp: addItem_def Let_def split: option.splits list.splits prod.splits
        intro!: sc[OF surjective_pairing])
qed

lemma sweepTags_frame:
  "sweepTags e cid i tgs s = (ok, s') \<Longrightarrow>
     contents s' = contents s \<and> vectors s' = vectors s \<and> users s' = users s \<and>
     next_oid s' = next_oid s \<and> (\<exists>P. tagdocs s' = filter P (tagdocs s))"
proof (induction tgs arbitrary: i s)
  case Nil
  then show ?case by (auto intro: exI[of _ "\<lambda>_. True"])
next
  case (Cons tg tgs)
  show ?case
  proof (cases "fails e (ContentExists i)")
    case True
    with Cons.prems show ?thesis by (auto intro: exI[of _ "\<lambda>_. True"])
  next
    case ne: False
    show ?thesis
    proof (cases "isTagUsedElsewhere cid tg s")
      case True
      with ne Cons.prems have "sweepTags e cid (Suc i) tgs s = (ok, s')" by simp
      from Cons.IH[OF this] show ?thesis .
    next
      case nu: False
      show ?thesis
      proof (cases "fails e (TagFindByIdAndDelete i)")
        case True
        with ne nu Cons.prems show ?thesis by (auto intro: exI[of _ "\<lambda>_. True"])
      next
        case False
        let ?s1 = "s\<lparr>tagdocs := filter (\<lambda>t. t_id t \<noteq> tg) (tagdocs s)\<rparr>"
        from False ne nu Cons.prems have "sweepTags e cid (Suc i) tgs ?s1 = (ok, s')" by simp
        from Cons.IH[OF this] obtain P where
          "contents s' = contents s" "vectors s' = vectors s" "users s' = users s"
          "next_oid s' = next_oid s" "tagdocs s' = filter P (filter (\<lambda>t. t_id t \<noteq> tg) (tagdocs s))"
          by auto
        then show ?thesis by (auto intro: exI[of _ "\<lambda>t. t_id t \<noteq> tg \<and> P t"])
      qed
    qed
  qed
qed

lemma tags_inv_filter:
  "tags_inv s \<Longrightarrow> tagdocs s' = filter P (tagdocs s) \<Longrightarrow> next_oid s' = next_oid s \<Longrightarrow> tags_inv s'"
  by (auto simp: tags_inv_def distinct_map_filter)

lemma contents_inv_filter:
  "contents_inv s \<Longrightarrow> contents s' = filter P (contents s) \<Longrightarrow> next_oid s' = next_oid s \<Longrightarrow>
     contents_inv s'"
  by (auto simp: contents_inv_def distinct_map_filter)

lemma deleteItem_inv:
  assumes "store_inv s"
  shows "store_inv (snd (deleteItem e uid cid s))"
proof -
  have sw: "store_inv s2 \<and> store_inv (s2\<lparr>contents := filter Q (contents s2)\<rparr>)"
    if "store_inv s1" "sweepTags e c 0 tgs s1 = (ok, s2)" for s1 s2 c tgs ok Q
  proof -
    from sweepTags_frame[OF that(2)] obtain P where fr:
      "contents s2 = contents s1" "vectors s2 = vectors s1" "next_oid s2 = next_oid s1"
      "tagdocs s2 = filter P (tagdocs s1)" by auto
    from that(1) have "contents_inv s1" "tags_inv s1" "distinct (map v_id (vectors s1))"
      by (simp_all add: store_inv_def)
    then have "contents_inv s2" "tags_inv s2" "distinct (map v_id (vectors s2))"
      using fr by (auto intro: tags_inv_filter contents_inv_mono)
    moreover from this have "contents_inv (s2\<lparr>contents := filter Q (contents s2)\<rparr>)"
      "tags_inv (s2\<lparr>contents := filter Q (contents s2)\<rparr>)"
      by (auto intro: contents_inv_filter simp: tags_inv_def)
    ultimately show ?thesis by (simp add: store_inv_def)
  qed
  have vd: "store_inv (s\<lparr>vectors := pinecone_deleteOne r (vectors s)\<rparr>)" for r
    using assms by (simp add: store_inv_def contents_inv_def tags_inv_def distinct_deleteOne)
  show ?thesis
    using assms vd
    by (auto simp: deleteItem_def Let_def split: option.splits idparam.splits prod.splits bool.splits
        dest: sw[rotated])
qed

lemma setShared_inv: "store_inv s \<Longrightarrow> store_inv (snd (setShared e uid share s))"
  by (auto simp: setShared_def store_inv_def contents_inv_def tags_inv_def split: option.splits)

lemma init_inv: "store_inv (init us)"
  by (simp add: init_def store_inv_def contents_inv_def tags_inv_def)

lemma reachable_inv: "reachable s \<Longrightarrow> store_inv s"
  by (induction rule: reachable.induct)
     (auto intro: init_inv addItem_inv deleteItem_inv setShared_inv)

section \<open>Facts about the queries\<close>

lemma userId_populate: "userId (populate ts c) = userId c"
  by (simp add: populate_def)

lemma embeddingId_populate: "embeddingId (populate ts c) = embeddingId c"
  by (simp add: populate_def)

lemma skip_limit_subset: "skip_limit a b xs = Some ys \<Longrightarrow> set ys \<subseteq> set xs"
  by (auto simp: skip_limit_def split: if_splits dest: in_set_takeD in_set_dropD)

lemma findByVectorRefs_owner: "c \<in> set (findByVectorRefs ids a s) \<Longrightarrow> userId c = a"
  by (simp add: findByVectorRefs_def)

lemma search_Results:
  assumes "search e a q s = (st, Results rs)"
  obtains "rs = []"
  | qt where "q = Some qt"
      "rs = map (populate (tagdocs s))
              (findByVectorRefs
                 (map match_id (filter aboveThreshold
                    (pinecone_query e (vectors s) (embedding e qt) 5))) a s)"
  using assms
  by (auto simp: search_def internalError_def Let_def split: option.splits if_splits)

lemma listItems_Listing:
  assumes "listItems e a qp ql s = (st, Listing l)"
  obtains found where "set found \<subseteq> set (ownedNewestFirst a s)"
    "l_results l = map (populate (tagdocs s)) found"
  using assms
  by (auto simp: listItems_def internalError_def Let_def split: option.splits if_splits
      dest: skip_limit_subset)

lemma threshold_above: "4 / 10 \<le> scoreThreshold"
  by (simp add: scoreThreshold_def)

lemma length_pinecone_query: "length (pinecone_query e vs q k) \<le> k"
  by (simp add: pinecone_query_def)

lemma match_ids_pinecone_query:
  "map match_id (pinecone_query e vs q k) =
     take k (map snd (sort_key (\<lambda>(x, i). - x) (map (\<lambda>v. (similarity e q (v_values v), v_id v)) vs)))"
  by (simp add: pinecone_query_def take_map split_def comp_def)

lemma distinct_pinecone_query:
  assumes "distinct (map v_id vs)"
  shows "distinct (map match_id (pinecone_query e vs q k))"
proof -
  let ?ys = "map (\<lambda>v. (similarity e q (v_values v), v_id v)) vs"
  have "distinct (map snd ?ys)" using assms by (simp add: comp_def)
  then have "distinct (map snd (sort_key (\<lambda>(x, i). - x) ?ys))"
    by (simp only: distinct_map distinct_sort set_sort)
  then show ?thesis
    unfolding match_ids_pinecone_query by (rule distinct_take)
qed

lemma length_findByVectorRefs:
  assumes "contents_inv s"
  shows "length (findByVectorRefs ids a s) \<le> length ids"
proof -
  let ?fs = "findByVectorRefs ids a s"
  have d: "distinct (map c_id ?fs)"
    using assms by (simp add: findByVectorRefs_def contents_inv_def distinct_map_filter)
  have "c_id c \<in> set ids" if "c \<in> set ?fs" for c
    using that assms by (auto simp: findByVectorRefs_def contents_inv_def split: option.splits)
  then have "set (map c_id ?fs) \<subseteq> set ids" by auto
  then have "card (set (map c_id ?fs)) \<le> card (set ids)" by (simp add: card_mono)
  also have "\<dots> \<le> length ids" by (rule card_length)
  finally show ?thesis using distinct_card[OF d] by simp
qed

section \<open>Facts about deletion\<close>

lemma isTagUsedElsewhere_tagdocs:
  "isTagUsedElsewhere cid tg (s\<lparr>tagdocs := ts\<rparr>) = isTagUsedElsewhere cid tg s"
  by (simp add: isTagUsedElsewhere_def)

lemma sweepTags_ok:
  assumes "\<And>k. \<not> fails e (ContentExists k)" "\<And>k. \<not> fails e (TagFindByIdAndDelete k)"
  shows "sweepTags e cid i tgs s =
     (True, s\<lparr>tagdocs := filter (\<lambda>t. t_id t \<in> set tgs \<longrightarrow> isTagUsedElsewhere cid (t_id t) s)
                           (tagdocs s)\<rparr>)"
proof (induction tgs arbitrary: i s)
  case Nil
  show ?case by simp
next
  case (Cons tg tgs)
  show ?case
  proof (cases "isTagUsedElsewhere cid tg s")
    case True
    then have "filter (\<lambda>t. t_id t \<in> set (tg # tgs) \<longrightarrow> isTagUsedElsewhere cid (t_id t) s) (tagdocs s)
             = filter (\<lambda>t. t_id t \<in> set tgs \<longrightarrow> isTagUsedElsewhere cid (t_id t) s) (tagdocs s)"
      by (auto intro: filter_cong)
    with True assms Cons.IH[of "Suc i" s] show ?thesis by simp
  next
    case False
    let ?s1 = "s\<lparr>tagdocs := filter (\<lambda>t. t_id t \<noteq> tg) (tagdocs s)\<rparr>"
    from False
    have "filter (\<lambda>t. t_id t \<in> set (tg # tgs) \<longrightarrow> isTagUsedElsewhere cid (t_id t) s) (tagdocs s)
        = filter (\<lambda>t. t_id t \<in> set tgs \<longrightarrow> isTagUsedElsewhere cid (t_id t) s)
            (filter (\<lambda>t. t_id t \<noteq> tg) (tagdocs s))"
      by (auto intro: filter_cong)
    with False assms Cons.IH[of "Suc i" ?s1] show ?thesis
      by (simp add: isTagUsedElsewhere_tagdocs)
  qed
qed

lemma find_by_id:
  "distinct (map c_id cs) \<Longrightarrow> a \<in> set cs \<Longrightarrow> find (\<lambda>c. c_id c = c_id a) cs = Some a"
  by (induction cs) (auto simp: image_iff)

lemma deleteItem_ok:
  assumes mongo: "\<And>st. st \<noteq> PineconeDeleteOne \<Longrightarrow> \<not> fails e st"
    and "distinct (map c_id (contents s))" "a \<in> set (contents s)"
  shows "fst (deleteItem e (userId a) (Some (Valid (c_id a))) s) = (200, Message ''Delete succeeded'')"
    and "tagdocs (snd (deleteItem e (userId a) (Some (Valid (c_id a))) s)) =
           filter (\<lambda>t. t_id t \<in> set (tags a) \<longrightarrow> isTagUsedElsewhere (c_id a) (t_id t) s) (tagdocs s)"
    and "contents (snd (deleteItem e (userId a) (Some (Valid (c_id a))) s)) =
           filter (\<lambda>c. c_id c \<noteq> c_id a) (contents s)"
proof -
  have f: "find (\<lambda>c. c_id c = c_id a) (contents s) = Some a"
    using assms(2,3) by (rule find_by_id)
  have sw: "sweepTags e (c_id a) 0 (tags a) s1 =
     (True, s1\<lparr>tagdocs := filter (\<lambda>t. t_id t \<in> set (tags a) \<longrightarrow> isTagUsedElsewhere (c_id a) (t_id t) s1)
                           (tagdocs s1)\<rparr>)" for s1
    by (rule sweepTags_ok) (simp_all add: mongo)
  have u: "isTagUsedElsewhere c t (s\<lparr>vectors := vs\<rparr>) = isTagUsedElsewhere c t s" for c t vs
    by (simp add: isTagUsedElsewhere_def)
  have ok: "\<not> fails e ContentFindById" "\<not> fails e ContentFindByIdAndDelete" by (simp_all add: mongo)
  show "fst (deleteItem e (userId a) (Some (Valid (c_id a))) s) = (200, Message ''Delete succeeded'')"
    by (simp add: deleteItem_def f sw ok Let_def split: option.splits)
  show "tagdocs (snd (deleteItem e (userId a) (Some (Valid (c_id a))) s)) =
           filter (\<lambda>t. t_id t \<in> set (tags a) \<longrightarrow> isTagUsedElsewhere (c_id a) (t_id t) s) (tagdocs s)"
    by (simp add: deleteItem_def f sw ok u Let_def split: option.splits)
  show "contents (snd (deleteItem e (userId a) (Some (Valid (c_id a))) s)) =
           filter (\<lambda>c. c_id c \<noteq> c_id a) (contents s)"
    by (simp add: deleteItem_def f sw ok Let_def split: option.splits)
qed

section \<open>The example stores\<close>

lemma two_owners_built:
  "snd (addItem quiet 2 (demo_req ''dem'' [''x''])
     (snd (addItem quiet 1 (demo_req ''demo'' [''x'', ''y'']) (init [])))) = two_owners"
  by code_simp

lemma two_owners_reachable: "reachable two_owners"
  using r_add[OF r_add[OF r_init], of quiet 2 "demo_req ''dem'' [''x'']" quiet 1
      "demo_req ''demo'' [''x'', ''y'']" "[]"]
  by (simp only: two_owners_built)

lemma two_owners_query:
  "pinecone_query quiet (vectors two_owners) (embedding quiet ''demo'') 5 =
     [\<lparr>match_id = 3, score = Some (7 / 10)\<rparr>, \<lparr>match_id = 2, score = Some (6 / 10)\<rparr>]"
  by code_simp

lemma two_owners_search:
  "search quiet 1 (Some ''demo'') two_owners =
     (200, Results [populate (tagdocs two_owners) item_a])"
  by code_simp

lemma two_owners_far_query:
  "pinecone_query quiet (vectors two_owners) (embedding quiet ''a title that is far away'') 5 =
     [\<lparr>match_id = 2, score = Some (- 6 / 10)\<rparr>, \<lparr>match_id = 3, score = Some (- 7 / 10)\<rparr>]"
  by code_simp

section \<open>Retrieval\<close>

text \<open>
  C1. In a state the handlers can reach, the index is asked for 5 candidates and returns
  at most 5; a search that answers with results returns at most 5 items, each of which
  is the document of a candidate of the response, and every candidate of the response that
  a returned item refers to has a score of at least 0.4. When no candidate of the response
  reaches the threshold (and the embedding and the index query do not fail), the answer
  is 200 with the empty list.
\<close>

theorem search_threshold:
  assumes "reachable s"
  shows "length (pinecone_query e (vectors s) (embedding e qt) 5) \<le> 5 \<and>
     (\<forall>st rs. search e a (Some qt) s = (st, Results rs) \<longrightarrow>
        length rs \<le> 5 \<and>
        (\<forall>d \<in> set rs.
           (\<exists>m \<in> set (pinecone_query e (vectors s) (embedding e qt) 5).
              embeddingId d = Some (match_id m)) \<and>
           (\<forall>m \<in> set (pinecone_query e (vectors s) (embedding e qt) 5).
              embeddingId d = Some (match_id m) \<longrightarrow> (\<exists>x. score m = Some x \<and> 4 / 10 \<le> x)))) \<and>
     (qt \<noteq> [] \<and> \<not> fails e GetEmbedding \<and> \<not> fails e PineconeQuery \<and>
      (\<forall>m \<in> set (pinecone_query e (vectors s) (embedding e qt) 5). \<not> aboveThreshold m) \<longrightarrow>
        search e a (Some qt) s = (200, Results []))"
proof (intro conjI allI impI)
  let ?ms = "pinecone_query e (vectors s) (embedding e qt) 5"
  let ?ids = "map match_id (filter aboveThreshold ?ms)"
  from reachable_inv[OF assms] have ci: "contents_inv s" and vi: "distinct (map v_id (vectors s))"
    by (simp_all add: store_inv_def)
  have dm: "distinct (map match_id ?ms)" using vi by (rule distinct_pinecone_query)
  show len: "length ?ms \<le> 5" by (rule length_pinecone_query)
  {
    fix st rs assume r: "search e a (Some qt) s = (st, Results rs)"
    then consider "rs = []" | "rs = map (populate (tagdocs s)) (findByVectorRefs ?ids a s)"
      by (elim search_Results) auto
    note cases = this
    have "length (findByVectorRefs ?ids a s) \<le> length ?ids" using ci by (rule length_findByVectorRefs)
    also have "\<dots> \<le> length ?ms" by simp
    finally have "length (findByVectorRefs ?ids a s) \<le> 5" using len by simp
    with cases show "length rs \<le> 5" by cases simp_all
    show "\<forall>d \<in> set rs.
           (\<exists>m \<in> set ?ms. embeddingId d = Some (match_id m)) \<and>
           (\<forall>m \<in> set ?ms. embeddingId d = Some (match_id m) \<longrightarrow> (\<exists>x. score m = Some x \<and> 4 / 10 \<le> x))"
    proof
      fix d assume d: "d \<in> set rs"
      with cases obtain c where c: "c \<in> set (findByVectorRefs ?ids a s)" "d = populate (tagdocs s) c"
        by cases auto
      then obtain m0 where m0: "m0 \<in> set ?ms" "aboveThreshold m0" "embeddingId c = Some (match_id m0)"
        by (auto simp: findByVectorRefs_def split: option.splits)
      have "\<exists>x. score m = Some x \<and> 4 / 10 \<le> x" if "m \<in> set ?ms" "embeddingId d = Some (match_id m)" for m
      proof -
        from that c m0 have "match_id m = match_id m0" by (simp add: embeddingId_populate)
        with dm that(1) m0(1) have "m = m0" by (auto simp: distinct_map dest: inj_onD)
        with m0(2) obtain x where "score m = Some x" "scoreThreshold \<le> x"
          by (auto simp: aboveThreshold_def split: option.splits)
        with threshold_above show ?thesis by auto
      qed
      with m0 c show "(\<exists>m \<in> set ?ms. embeddingId d = Some (match_id m)) \<and>
           (\<forall>m \<in> set ?ms. embeddingId d = Some (match_id m) \<longrightarrow> (\<exists>x. score m = Some x \<and> 4 / 10 \<le> x))"
        by (auto simp: embeddingId_populate)
    qed
  }
  assume "qt \<noteq> [] \<and> \<not> fails e GetEmbedding \<and> \<not> fails e PineconeQuery \<and>
      (\<forall>m \<in> set ?ms. \<not> aboveThreshold m)"
  then show "search e a (Some qt) s = (200, Results [])"
    by (simp add: search_def Let_def filter_empty_conv[THEN iffD2])
qed

theorem search_threshold_witness:
  "reachable two_owners \<and>
   search quiet 1 (Some ''demo'') two_owners =
     (200, Results [populate (tagdocs two_owners) item_a]) \<and>
   length [populate (tagdocs two_owners) item_a] \<le> 5 \<and>
   embeddingId (populate (tagdocs two_owners) item_a) = Some 2 \<and>
   \<lparr>match_id = 2, score = Some (6 / 10)\<rparr>
     \<in> set (pinecone_query quiet (vectors two_owners) (embedding quiet ''demo'') 5) \<and>
   (4 :: real) / 10 \<le> 6 / 10 \<and>
   \<not> aboveThreshold \<lparr>match_id = 2, score = Some (- 6 / 10)\<rparr> \<and>
   \<not> aboveThreshold \<lparr>match_id = 3, score = Some (- 7 / 10)\<rparr> \<and>
   search quiet 1 (Some ''a title that is far away'') two_owners = (200, Results [])"
proof -
  have r: "reachable two_owners" by (rule two_owners_reachable)
  have below: "\<forall>m \<in> set (pinecone_query quiet (vectors two_owners)
      (embedding quiet ''a title that is far away'') 5). \<not> aboveThreshold m"
    by (simp add: two_owners_far_query aboveThreshold_def scoreThreshold_def)
  have ok: "\<not> fails quiet GetEmbedding \<and> \<not> fails quiet PineconeQuery"
    by (simp add: quiet_def)
  from search_threshold[OF r, of quiet "''a title that is far away''" 1] below ok
  have far: "search quiet 1 (Some ''a title that is far away'') two_owners = (200, Results [])"
    by simp
  from search_threshold[OF r, of quiet "''demo''" 1] two_owners_search
  have "length [populate (tagdocs two_owners) item_a] \<le> 5" by blast
  with r far two_owners_search two_owners_query show ?thesis
    by (simp add: embeddingId_populate item_a_def aboveThreshold_def scoreThreshold_def)
qed

text \<open>
  C2. Whatever the stores hold and however the vectors score, the documents returned to
  owner \<open>a\<close> by \<open>findByVectorRefs\<close>, by a search and by a listing all have \<open>a\<close> as their owner.
\<close>

theorem ownership_isolation:
  "(\<forall>c \<in> set (findByVectorRefs ids a s). userId c = a) \<and>
   (\<forall>st rs. search e a q s = (st, Results rs) \<longrightarrow> (\<forall>d \<in> set rs. userId d = a)) \<and>
   (\<forall>st l. listItems e a qp ql s = (st, Listing l) \<longrightarrow> (\<forall>d \<in> set (l_results l). userId d = a))"
proof (intro conjI allI impI ballI)
  fix c assume "c \<in> set (findByVectorRefs ids a s)"
  then show "userId c = a" by (rule findByVectorRefs_owner)
next
  fix st rs d
  assume "search e a q s = (st, Results rs)" and d: "d \<in> set rs"
  then show "userId d = a"
    by (elim search_Results) (auto simp: userId_populate findByVectorRefs_owner)
next
  fix st l d
  assume "listItems e a qp ql s = (st, Listing l)" and d: "d \<in> set (l_results l)"
  then obtain found where "set found \<subseteq> set (ownedNewestFirst a s)"
    "l_results l = map (populate (tagdocs s)) found"
    by (elim listItems_Listing)
  with d show "userId d = a"
    by (auto simp: userId_populate ownedNewestFirst_def)
qed

theorem ownership_isolation_witness:
  "pinecone_query quiet (vectors two_owners) (embedding quiet ''demo'') 5 =
     [\<lparr>match_id = 3, score = Some (7 / 10)\<rparr>, \<lparr>match_id = 2, score = Some (6 / 10)\<rparr>] \<and>
   userId item_b = 2 \<and> embeddingId item_b = Some 3 \<and>
   search quiet 1 (Some ''demo'') two_owners =
     (200, Results [populate (tagdocs two_owners) item_a]) \<and>
   userId (populate (tagdocs two_owners) item_a) = 1 \<and>
   findByVectorRefs [3, 2] 1 two_owners = [item_a] \<and> userId item_a = 1"
proof -
  have f: "findByVectorRefs [3, 2] 1 two_owners = [item_a]" by code_simp
  from ownership_isolation[of "[3, 2]" 1 two_owners quiet "Some ''demo''"] two_owners_search f
  have "userId (populate (tagdocs two_owners) item_a) = 1 \<and> userId item_a = 1"
    by simp
  with two_owners_query two_owners_search f show ?thesis
    by (simp add: item_b_def)
qed

section \<open>Deletion\<close>

text \<open>
  C7. When the lookup of the document answers, deleting an id that no document has is
  answered 404, and deleting a document of another owner is answered 403; in both cases
  the state (documents, tags, vectors) is returned as it was. More generally, whenever a
  delete request is answered 403 or 404, the state is unchanged.
\<close>

theorem deleteItem_rejects_untouched:
  assumes "\<not> fails e ContentFindById"
  shows "(find (\<lambda>c. c_id c = cid) (contents s) = None \<longrightarrow>
            deleteItem e uid (Some (Valid cid)) s = ((404, Error ''Content not found''), s)) \<and>
         (\<forall>c. find (\<lambda>c. c_id c = cid) (contents s) = Some c \<and> userId c \<noteq> uid \<longrightarrow>
            deleteItem e uid (Some (Valid cid)) s =
              ((403, Error ''Forbidden: Cannot delete content you do not own''), s)) \<and>
         (fst (fst (deleteItem e' uid' p s)) \<in> {403, 404} \<longrightarrow> snd (deleteItem e' uid' p s) = s)"
  using assms
  by (auto simp: deleteItem_def internalError_def Let_def
      split: option.splits idparam.splits prod.splits bool.splits)

theorem deleteItem_rejects_untouched_witness:
  "\<not> fails quiet ContentFindById \<and>
   find (\<lambda>c. c_id c = 9) (contents two_owners) = None \<and>
   deleteItem quiet 1 (Some (Valid 9)) two_owners = ((404, Error ''Content not found''), two_owners) \<and>
   find (\<lambda>c. c_id c = 2) (contents two_owners) = Some item_a \<and> userId item_a \<noteq> 2 \<and>
   deleteItem quiet 2 (Some (Valid 2)) two_owners =
     ((403, Error ''Forbidden: Cannot delete content you do not own''), two_owners)"
proof -
  have h: "\<not> fails quiet ContentFindById" by (simp add: quiet_def)
  have a: "find (\<lambda>c. c_id c = 9) (contents two_owners) = None"
    by (simp add: two_owners_def item_a_def item_b_def)
  have b: "find (\<lambda>c. c_id c = 2) (contents two_owners) = Some item_a \<and> userId item_a \<noteq> 2"
    by (simp add: two_owners_def item_a_def item_b_def)
  from deleteItem_rejects_untouched[OF h, of 9 two_owners 1] a
  have "deleteItem quiet 1 (Some (Valid 9)) two_owners = ((404, Error ''Content not found''), two_owners)"
    by blast
  moreover from deleteItem_rejects_untouched[OF h, of 2 two_owners 2] b
  have "deleteItem quiet 2 (Some (Valid 2)) two_owners =
     ((403, Error ''Forbidden: Cannot delete content you do not own''), two_owners)"
    by blast
  ultimately show ?thesis using h a b by simp
qed

text \<open>
  C6. In a reachable state, let two different documents hold a tag that no third document
  holds, and let the MongoDB calls of two delete requests succeed (the Pinecone delete may
  fail). Deleting the first document by its owner succeeds and keeps every tag document
  of that id; deleting the second by its owner then succeeds and leaves no tag document
  of that id.
\<close>

theorem shared_tag_collected_after_second_delete:
  assumes "reachable s"
    and "a \<in> set (contents s)" "b \<in> set (contents s)" "c_id a \<noteq> c_id b"
    and "tg \<in> set (tags a)" "tg \<in> set (tags b)"
    and only: "\<forall>c \<in> set (contents s). tg \<in> set (tags c) \<longrightarrow> c = a \<or> c = b"
    and m1: "\<forall>st. st \<noteq> PineconeDeleteOne \<longrightarrow> \<not> fails e1 st"
    and m2: "\<forall>st. st \<noteq> PineconeDeleteOne \<longrightarrow> \<not> fails e2 st"
  shows "fst (deleteItem e1 (userId a) (Some (Valid (c_id a))) s) = (200, Message ''Delete succeeded'') \<and>
     (\<forall>t \<in> set (tagdocs s). t_id t = tg \<longrightarrow>
        t \<in> set (tagdocs (snd (deleteItem e1 (userId a) (Some (Valid (c_id a))) s)))) \<and>
     fst (deleteItem e2 (userId b) (Some (Valid (c_id b)))
            (snd (deleteItem e1 (userId a) (Some (Valid (c_id a))) s))) =
       (200, Message ''Delete succeeded'') \<and>
     tg \<notin> t_id ` set (tagdocs (snd (deleteItem e2 (userId b) (Some (Valid (c_id b)))
            (snd (deleteItem e1 (userId a) (Some (Valid (c_id a))) s)))))"
proof -
  let ?s1 = "snd (deleteItem e1 (userId a) (Some (Valid (c_id a))) s)"
  let ?s2 = "snd (deleteItem e2 (userId b) (Some (Valid (c_id b))) ?s1)"
  from reachable_inv[OF assms(1)] have d: "distinct (map c_id (contents s))"
    by (simp add: store_inv_def contents_inv_def)
  from m1 have m1': "\<And>st. st \<noteq> PineconeDeleteOne \<Longrightarrow> \<not> fails e1 st" by blast
  from m2 have m2': "\<And>st. st \<noteq> PineconeDeleteOne \<Longrightarrow> \<not> fails e2 st" by blast
  note first = deleteItem_ok[OF m1' d assms(2)]
  have c1: "contents ?s1 = filter (\<lambda>c. c_id c \<noteq> c_id a) (contents s)" by (rule first(3))
  have d1: "distinct (map c_id (contents ?s1))" using d by (simp add: c1 distinct_map_filter)
  have b1: "b \<in> set (contents ?s1)" using assms(3,4) by (simp add: c1)
  note second = deleteItem_ok[OF m2' d1 b1]
  have used: "isTagUsedElsewhere (c_id a) tg s"
    using assms(3,6) assms(4)[symmetric] by (auto simp: isTagUsedElsewhere_def list_ex_iff)
  have unused: "\<not> isTagUsedElsewhere (c_id b) tg ?s1"
    using only by (auto simp: isTagUsedElsewhere_def list_ex_iff c1)
  have keep: "\<forall>t \<in> set (tagdocs s). t_id t = tg \<longrightarrow> t \<in> set (tagdocs ?s1)"
    using used by (simp add: first(2))
  have gone: "tg \<notin> t_id ` set (tagdocs ?s2)"
    using unused assms(6) by (auto simp: second(2))
  from first(1) keep second(1) gone show ?thesis by blast
qed

theorem shared_tag_collected_witness:
  "reachable two_owners \<and> item_a \<in> set (contents two_owners) \<and> item_b \<in> set (contents two_owners) \<and>
   c_id item_a \<noteq> c_id item_b \<and> 0 \<in> set (tags item_a) \<and> 0 \<in> set (tags item_b) \<and>
   fst (deleteItem (failing PineconeDeleteOne) 1 (Some (Valid 2)) two_owners) =
     (200, Message ''Delete succeeded'') \<and>
   \<lparr>t_id = 0, tag_title = ''x''\<rparr>
     \<in> set (tagdocs (snd (deleteItem (failing PineconeDeleteOne) 1 (Some (Valid 2)) two_owners))) \<and>
   fst (deleteItem quiet 2 (Some (Valid 3))
          (snd (deleteItem (failing PineconeDeleteOne) 1 (Some (Valid 2)) two_owners))) =
     (200, Message ''Delete succeeded'') \<and>
   0 \<notin> t_id ` set (tagdocs (snd (deleteItem quiet 2 (Some (Valid 3))
          (snd (deleteItem (failing PineconeDeleteOne) 1 (Some (Valid 2)) two_owners)))))"
proof -
  have r: "reachable two_owners" by (rule two_owners_reachable)
  have a: "item_a \<in> set (contents two_owners)" and b: "item_b \<in> set (contents two_owners)"
    by (simp_all add: two_owners_def)
  have ne: "c_id item_a \<noteq> c_id item_b" by (simp add: item_a_def item_b_def)
  have ta: "0 \<in> set (tags item_a)" and tb: "0 \<in> set (tags item_b)"
    by (simp_all add: item_a_def item_b_def)
  have only: "\<forall>c \<in> set (contents two_owners). 0 \<in> set (tags c) \<longrightarrow> c = item_a \<or> c = item_b"
    by (simp add: two_owners_def)
  have m1: "\<forall>st. st \<noteq> PineconeDeleteOne \<longrightarrow> \<not> fails (failing PineconeDeleteOne) st"
    by (simp add: failing_def quiet_def)
  have m2: "\<forall>st. st \<noteq> PineconeDeleteOne \<longrightarrow> \<not> fails quiet st"
    by (simp add: quiet_def)
  have x: "\<lparr>t_id = 0, tag_title = ''x''\<rparr> \<in> set (tagdocs two_owners)"
    by (simp add: two_owners_def)
  have ids: "userId item_a = 1" "c_id item_a = 2" "userId item_b = 2" "c_id item_b = 3"
    by (simp_all add: item_a_def item_b_def)
  from shared_tag_collected_after_second_delete[OF r a b ne ta tb only m1 m2] x
  have "fst (deleteItem (failing PineconeDeleteOne) 1 (Some (Valid 2)) two_owners) =
     (200, Message ''Delete succeeded'') \<and>
   \<lparr>t_id = 0, tag_title = ''x''\<rparr>
     \<in> set (tagdocs (snd (deleteItem (failing PineconeDeleteOne) 1 (Some (Valid 2)) two_owners))) \<and>
   fst (deleteItem quiet 2 (Some (Valid 3))
          (snd (deleteItem (failing PineconeDeleteOne) 1 (Some (Valid 2)) two_owners))) =
     (200, Message ''Delete succeeded'') \<and>
   0 \<notin> t_id ` set (tagdocs (snd (deleteItem quiet 2 (Some (Valid 3))
          (snd (deleteItem (failing PineconeDeleteOne) 1 (Some (Valid 2)) two_owners)))))"
    unfolding ids by force
  with r a b ne ta tb show ?thesis by blast
qed

section \<open>Ingestion\<close>

lemma extract_Nil: "extractYouTubeVideoId [] = None"
  by (simp add: matchHere_def)

lemma addItem_tags_first:
  "getTagIds e 0 (r_tags req) s = (None, s1) \<Longrightarrow> addItem e uid req s = (serverError, s1)"
  by (simp add: addItem_def)

text \<open>
  C3, as the code has it. The handler resolves the tag titles before it looks at the link.
  For a request whose link has no video id, or whose video YouTube does not know (the
  lookup itself answering), the state left behind is the state after \<open>getTagIds\<close>: no
  document is created and no vector is upserted, and no tag document is lost. When the
  tags resolved, the answer is 400 for the link and 404 for the unknown video, and every
  title of the request then has a tag document: the titles that had none were created.
\<close>

theorem addItem_rejected_link:
  assumes "extractYouTubeVideoId (r_link req) = None \<or>
     (\<exists>v. extractYouTubeVideoId (r_link req) = Some v \<and> \<not> fails e YoutubeGet \<and> youtube e v = [])"
  shows "snd (addItem e uid req s) = snd (getTagIds e 0 (r_tags req) s) \<and>
     contents (snd (addItem e uid req s)) = contents s \<and>
     vectors (snd (addItem e uid req s)) = vectors s \<and>
     set (tagdocs s) \<subseteq> set (tagdocs (snd (addItem e uid req s))) \<and>
     (\<forall>ids s1. getTagIds e 0 (r_tags req) s = (Some ids, s1) \<longrightarrow>
        fst (addItem e uid req s) =
          (if extractYouTubeVideoId (r_link req) = None then (400, Error ''Invalid YouTube link.'')
           else (404, Error ''YouTube video not found.'')) \<and>
        list_all2 (\<lambda>k x. \<exists>t \<in> set (tagdocs (snd (addItem e uid req s))). t_id t = k \<and> tag_title t = x)
          ids (r_tags req))"
proof -
  obtain r0 s1 where g: "getTagIds e 0 (r_tags req) s = (r0, s1)"
    by (cases "getTagIds e 0 (r_tags req) s")
  have st: "snd (addItem e uid req s) = s1"
    using assms g by (auto simp: addItem_def split: option.splits)
  have rp: "fst (addItem e uid req s) =
          (if extractYouTubeVideoId (r_link req) = None then (400, Error ''Invalid YouTube link.'')
           else (404, Error ''YouTube video not found.''))" if "r0 = Some ids" for ids
    using assms g that by (auto simp: addItem_def)
  have rs: "list_all2 (\<lambda>k x. \<exists>t \<in> set (tagdocs s1). t_id t = k \<and> tag_title t = x) ids (r_tags req)"
    if "r0 = Some ids" for ids
    using g that by (auto intro: getTagIds_resolves)
  from getTagIds_frame[OF g] getTagIds_mono[OF g] st g rp rs show ?thesis by auto
qed

text \<open>
  The claim as stated fails: on empty stores, a request with a link that is not a YouTube
  link, and one with the link of a video YouTube does not know, both leave the tag x
  created.
\<close>

theorem addItem_rejected_link_counterexample:
  "extractYouTubeVideoId ''not a link'' = None \<and>
   tagdocs (init []) = [] \<and>
   addItem quiet 1 (link_req ''not a link'' [''x'']) (init []) =
     ((400, Error ''Invalid YouTube link.''),
      \<lparr>users = [], contents = [], tagdocs = [\<lparr>t_id = 0, tag_title = ''x''\<rparr>], vectors = [],
       next_oid = 1\<rparr>) \<and>
   extractYouTubeVideoId ''https://youtu.be/zzzzzzzzzzz'' = Some ''zzzzzzzzzzz'' \<and>
   youtube quiet ''zzzzzzzzzzz'' = [] \<and>
   addItem quiet 1 (link_req ''https://youtu.be/zzzzzzzzzzz'' [''x'']) (init []) =
     ((404, Error ''YouTube video not found.''),
      \<lparr>users = [], contents = [], tagdocs = [\<lparr>t_id = 0, tag_title = ''x''\<rparr>], vectors = [],
       next_oid = 1\<rparr>)"
  by code_simp

theorem addItem_rejected_link_witness:
  "extractYouTubeVideoId (r_link (link_req ''not a link'' [''z''])) = None \<and>
   getTagIds quiet 0 (r_tags (link_req ''not a link'' [''z''])) two_owners =
     (Some [4], two_owners\<lparr>next_oid := 5, tagdocs := tagdocs two_owners @ [\<lparr>t_id = 4, tag_title = ''z''\<rparr>]\<rparr>) \<and>
   contents (snd (addItem quiet 1 (link_req ''not a link'' [''z'']) two_owners)) = contents two_owners \<and>
   vectors (snd (addItem quiet 1 (link_req ''not a link'' [''z'']) two_owners)) = vectors two_owners \<and>
   fst (addItem quiet 1 (link_req ''not a link'' [''z'']) two_owners) =
     (400, Error ''Invalid YouTube link.'') \<and>
   snd (addItem quiet 1 (link_req ''not a link'' [''z'']) two_owners) =
     two_owners\<lparr>next_oid := 5, tagdocs := tagdocs two_owners @ [\<lparr>t_id = 4, tag_title = ''z''\<rparr>]\<rparr>"
proof -
  have h: "extractYouTubeVideoId (r_link (link_req ''not a link'' [''z''])) = None" by code_simp
  have g: "getTagIds quiet 0 (r_tags (link_req ''not a link'' [''z''])) two_owners =
     (Some [4], two_owners\<lparr>next_oid := 5, tagdocs := tagdocs two_owners @ [\<lparr>t_id = 4, tag_title = ''z''\<rparr>]\<rparr>)"
    by code_simp
  note th = addItem_rejected_link[OF disjI1[OF h], of quiet 1 two_owners]
  from th have 1: "contents (snd (addItem quiet 1 (link_req ''not a link'' [''z'']) two_owners)) =
      contents two_owners \<and>
    vectors (snd (addItem quiet 1 (link_req ''not a link'' [''z'']) two_owners)) = vectors two_owners"
    by blast
  from th g have "fst (addItem quiet 1 (link_req ''not a link'' [''z'']) two_owners) =
      (if extractYouTubeVideoId (r_link (link_req ''not a link'' [''z''])) = None
       then (400, Error ''Invalid YouTube link.'') else (404, Error ''YouTube video not found.''))"
    by blast
  then have 2: "fst (addItem quiet 1 (link_req ''not a link'' [''z'']) two_owners) =
     (400, Error ''Invalid YouTube link.'')"
    by (simp only: h if_True refl simp_thms)
  from th have "snd (addItem quiet 1 (link_req ''not a link'' [''z'']) two_owners) =
     snd (getTagIds quiet 0 (r_tags (link_req ''not a link'' [''z''])) two_owners)"
    by blast
  then have 3: "snd (addItem quiet 1 (link_req ''not a link'' [''z'']) two_owners) =
     two_owners\<lparr>next_oid := 5, tagdocs := tagdocs two_owners @ [\<lparr>t_id = 4, tag_title = ''z''\<rparr>]\<rparr>"
    by (simp only: g snd_conv)
  from h g 1 2 3 show ?thesis by blast
qed

lemma saveContent_sync_failure:
  assumes "content_valid c" "\<not> fails e ContentSave" "fails e PineconeUpsert \<or> fails e ContentSaveRef"
  shows "fst (saveContent e c v s) = serverError"
    and "contents (snd (saveContent e c v s)) = contents s @ [c]"
  using assms by (auto simp: saveContent_def Let_def)

lemma addItem_early_failure:
  assumes "extractYouTubeVideoId (r_link req) = Some v"
    and "(\<exists>s'. getTagIds e 0 (r_tags req) s = (None, s')) \<or> fails e YoutubeGet \<or>
         (youtube e v \<noteq> [] \<and> fails e GetEmbedding)"
  shows "fst (addItem e uid req s) = serverError"
    and "contents (snd (addItem e uid req s)) = contents s"
proof -
  obtain r0 s0 where g: "getTagIds e 0 (r_tags req) s = (r0, s0)"
    by (cases "getTagIds e 0 (r_tags req) s")
  from assms g show "fst (addItem e uid req s) = serverError"
    by (auto simp: addItem_def Let_def split: option.splits list.splits)
  from assms g getTagIds_frame[OF g] show "contents (snd (addItem e uid req s)) = contents s"
    by (auto simp: addItem_def Let_def split: option.splits list.splits)
qed

text \<open>
  C4, as the code has it. Let the tags resolve, the video be found, the embedding be
  computed and the first save of a valid document succeed, and let the Pinecone upsert or
  the second save fail. Then the new document is in the store without a vector reference,
  and the answer is 500 ``Server error.'': the very answer of a request that failed in tag
  resolution, in the lookup or in the embedding, before any document was created.
\<close>

theorem addItem_vector_sync_failure:
  assumes "getTagIds e 0 (r_tags req) s = (Some ids, s1)"
    and "extractYouTubeVideoId (r_link req) = Some v"
    and "\<not> fails e YoutubeGet" "youtube e v = sn # sns" "\<not> fails e GetEmbedding"
    and "r_type req \<in> set contentTypes" "r_title req \<noteq> []"
    and "\<not> fails e ContentSave"
    and "fails e PineconeUpsert \<or> fails e ContentSaveRef"
  shows "fst (addItem e uid req s) = (500, Error ''Server error.'') \<and>
     contents (snd (addItem e uid req s)) =
       contents s @
         [\<lparr>c_id = next_oid s1, link = r_link req, ctype = r_type req, title = r_title req,
           youtubeTitle = Some (s_title sn), youtubeDescription = Some (s_description sn),
           thumbnailUrl = Some (case s_thumbnail sn of None \<Rightarrow> [] | Some u \<Rightarrow> u),
           embeddingId = None, tags = ids, userId = uid\<rparr>] \<and>
     (\<forall>e'. (\<exists>s'. getTagIds e' 0 (r_tags req) s = (None, s')) \<or> fails e' YoutubeGet \<or>
            (youtube e' v \<noteq> [] \<and> fails e' GetEmbedding) \<longrightarrow>
        fst (addItem e' uid req s) = fst (addItem e uid req s) \<and>
        contents (snd (addItem e' uid req s)) = contents s)"
proof -
  let ?c = "\<lparr>c_id = next_oid s1, link = r_link req, ctype = r_type req, title = r_title req,
           youtubeTitle = Some (s_title sn), youtubeDescription = Some (s_description sn),
           thumbnailUrl = Some (case s_thumbnail sn of None \<Rightarrow> [] | Some u \<Rightarrow> u),
           embeddingId = None, tags = ids, userId = uid\<rparr>"
  let ?v = "embedding e (r_title req @ '','' @ s_title sn @ '','' @ s_description sn)"
  let ?s1 = "s1\<lparr>next_oid := Suc (next_oid s1)\<rparr>"
  have ne: "r_link req \<noteq> []" using assms(2) extract_Nil by auto
  have valid: "content_valid ?c" using assms(6,7) ne by (simp add: content_valid_def)
  have eq: "addItem e uid req s = saveContent e ?c ?v ?s1"
    using assms(1-5) by (simp add: addItem_def Let_def)
  note sf = saveContent_sync_failure[OF valid assms(8,9), of ?v ?s1]
  have c: "contents s1 = contents s" using getTagIds_frame[OF assms(1)] by simp
  have r: "fst (addItem e uid req s) = (500, Error ''Server error.'')"
    using sf(1) by (simp add: eq serverError_def)
  from r sf(2) c addItem_early_failure[OF assms(2)] show ?thesis
    by (simp add: eq serverError_def)
qed

text \<open>
  The claim as stated fails: a failed upsert and a failed second save are answered exactly
  as a failed embedding is, although they leave the document behind and it leaves none.
\<close>

theorem addItem_vector_sync_failure_counterexample:
  "fst (addItem (failing PineconeUpsert) 1 (demo_req ''demo'' [''x'']) (init [])) =
     (500, Error ''Server error.'') \<and>
   map c_id (contents (snd (addItem (failing PineconeUpsert) 1 (demo_req ''demo'' [''x'']) (init [])))) = [1] \<and>
   fst (addItem (failing ContentSaveRef) 1 (demo_req ''demo'' [''x'']) (init [])) =
     (500, Error ''Server error.'') \<and>
   map c_id (contents (snd (addItem (failing ContentSaveRef) 1 (demo_req ''demo'' [''x'']) (init [])))) = [1] \<and>
   fst (addItem (failing GetEmbedding) 1 (demo_req ''demo'' [''x'']) (init [])) =
     (500, Error ''Server error.'') \<and>
   contents (snd (addItem (failing GetEmbedding) 1 (demo_req ''demo'' [''x'']) (init []))) = []"
  by code_simp

lemma upsert_fails_setup:
  "getTagIds (failing PineconeUpsert) 0 (r_tags (demo_req ''demo'' [''x''])) two_owners =
     (Some [0], two_owners) \<and>
   extractYouTubeVideoId (r_link (demo_req ''demo'' [''x''])) = Some ''abc12345678'' \<and>
   youtube (failing PineconeUpsert) ''abc12345678'' =
     [\<lparr>s_title = ''T'', s_description = ''D'', s_thumbnail = None\<rparr>] \<and>
   r_type (demo_req ''demo'' [''x'']) \<in> set contentTypes \<and>
   r_title (demo_req ''demo'' [''x'']) \<noteq> []"
  by code_simp

theorem addItem_vector_sync_failure_witness:
  "fails (failing PineconeUpsert) PineconeUpsert \<and>
   \<not> fails (failing PineconeUpsert) ContentSave \<and>
   fst (addItem (failing PineconeUpsert) 1 (demo_req ''demo'' [''x'']) two_owners) =
     (500, Error ''Server error.'') \<and>
   map c_id (contents (snd (addItem (failing PineconeUpsert) 1 (demo_req ''demo'' [''x'']) two_owners))) =
     [2, 3, 4] \<and>
   map embeddingId (contents (snd (addItem (failing PineconeUpsert) 1 (demo_req ''demo'' [''x'']) two_owners))) =
     [Some 2, Some 3, None] \<and>
   fails (failing GetEmbedding) GetEmbedding \<and>
   fst (addItem (failing GetEmbedding) 1 (demo_req ''demo'' [''x'']) two_owners) =
     (500, Error ''Server error.'') \<and>
   contents (snd (addItem (failing GetEmbedding) 1 (demo_req ''demo'' [''x'']) two_owners)) =
     contents two_owners"
proof -
  have f: "\<not> fails (failing PineconeUpsert) YoutubeGet" "\<not> fails (failing PineconeUpsert) GetEmbedding"
    "\<not> fails (failing PineconeUpsert) ContentSave" "fails (failing PineconeUpsert) PineconeUpsert"
    "fails (failing GetEmbedding) GetEmbedding"
    "youtube (failing GetEmbedding) ''abc12345678'' \<noteq> []"
    by (simp_all add: failing_def quiet_def)
  note su = upsert_fails_setup
  note th = addItem_vector_sync_failure[OF su[THEN conjunct1] su[THEN conjunct2, THEN conjunct1]
      f(1) su[THEN conjunct2, THEN conjunct2, THEN conjunct1] f(2)
      su[THEN conjunct2, THEN conjunct2, THEN conjunct2, THEN conjunct1]
      su[THEN conjunct2, THEN conjunct2, THEN conjunct2, THEN conjunct2]
      f(3) disjI1[OF f(4)], of 1]
  from th have 1: "fst (addItem (failing PineconeUpsert) 1 (demo_req ''demo'' [''x'']) two_owners) =
     (500, Error ''Server error.'')" by blast
  from th have "contents (snd (addItem (failing PineconeUpsert) 1 (demo_req ''demo'' [''x'']) two_owners)) =
     contents two_owners @
       [\<lparr>c_id = next_oid two_owners, link = r_link (demo_req ''demo'' [''x'']),
         ctype = r_type (demo_req ''demo'' [''x'']), title = r_title (demo_req ''demo'' [''x'']),
         youtubeTitle = Some (s_title \<lparr>s_title = ''T'', s_description = ''D'', s_thumbnail = None\<rparr>),
         youtubeDescription = Some (s_description \<lparr>s_title = ''T'', s_description = ''D'', s_thumbnail = None\<rparr>),
         thumbnailUrl = Some (case s_thumbnail \<lparr>s_title = ''T'', s_description = ''D'', s_thumbnail = None\<rparr>
                              of None \<Rightarrow> [] | Some u \<Rightarrow> u),
         embeddingId = None, tags = [0], userId = 1\<rparr>]" by blast
  then have 2: "map c_id (contents (snd (addItem (failing PineconeUpsert) 1 (demo_req ''demo'' [''x'']) two_owners))) =
     [2, 3, 4] \<and>
   map embeddingId (contents (snd (addItem (failing PineconeUpsert) 1 (demo_req ''demo'' [''x'']) two_owners))) =
     [Some 2, Some 3, None]"
    by (simp add: two_owners_def item_a_def item_b_def)
  from th f(5,6) have 3: "fst (addItem (failing GetEmbedding) 1 (demo_req ''demo'' [''x'']) two_owners) =
       fst (addItem (failing PineconeUpsert) 1 (demo_req ''demo'' [''x'']) two_owners) \<and>
     contents (snd (addItem (failing GetEmbedding) 1 (demo_req ''demo'' [''x'']) two_owners)) =
       contents two_owners" by blast
  from f 1 2 3 show ?thesis by simp
qed









section \<open>Sharing\<close>

text \<open>
  C9, as the code has it. When the user lookup and the content query answer: if the
  account with the given id exists and has \<open>isShared\<close> set, the shared view is 200 with
  the account's username and the projection of every document of that owner; in every
  other case, account absent or not shared, it is one and the same 404 reply. So the view
  is served if and only if the account exists and is shared. The projection lists the tags
  by title and copies neither the field \<open>userId\<close> nor the field \<open>embeddingId\<close>; it does
  carry the document's own id, and in a reachable state that id is the value of the
  document's vector reference whenever the reference is set.
\<close>

theorem getSharedView_iff_shared:
  assumes "\<not> fails e UserFindById" "\<not> fails e ContentFind"
  shows "(\<forall>u. find (\<lambda>u. u_id u = i) (users s) = Some u \<and> isShared u \<longrightarrow>
        getSharedView e (Valid i) s =
          (200, Brain (username u)
             (map (formatContent \<circ> populate (tagdocs s)) (filter (\<lambda>c. userId c = i) (contents s))))) \<and>
     ((\<nexists>u. find (\<lambda>u. u_id u = i) (users s) = Some u \<and> isShared u) \<longrightarrow>
        getSharedView e (Valid i) s = (404, Error ''Shared brain not found or sharing disabled.'')) \<and>
     ((\<exists>u. find (\<lambda>u. u_id u = i) (users s) = Some u \<and> isShared u) \<longleftrightarrow>
        fst (getSharedView e (Valid i) s) = 200) \<and>
     formatContent (populate ts (c\<lparr>embeddingId := r, userId := w\<rparr>)) = formatContent (populate ts c) \<and>
     si_tags (formatContent (populate ts c)) =
       map tag_title (List.map_filter (\<lambda>k. find (\<lambda>t. t_id t = k) ts) (tags c)) \<and>
     si_id (formatContent (populate ts c)) = c_id c \<and>
     (reachable s \<longrightarrow>
        (\<forall>d \<in> set (contents s). \<forall>v. embeddingId d = Some v \<longrightarrow>
           si_id (formatContent (populate (tagdocs s) d)) = v))"
proof (intro conjI allI impI ballI)
  fix u assume u: "find (\<lambda>u. u_id u = i) (users s) = Some u \<and> isShared u"
  then have "u_id u = i" by (auto simp: find_Some_iff)
  with u assms show "getSharedView e (Valid i) s =
          (200, Brain (username u)
             (map (formatContent \<circ> populate (tagdocs s)) (filter (\<lambda>c. userId c = i) (contents s))))"
    by (simp add: getSharedView_def)
next
  assume "\<nexists>u. find (\<lambda>u. u_id u = i) (users s) = Some u \<and> isShared u"
  with assms show "getSharedView e (Valid i) s = (404, Error ''Shared brain not found or sharing disabled.'')"
    by (cases "find (\<lambda>u. u_id u = i) (users s)") (simp_all add: getSharedView_def brainNotFound_def)
next
  show "(\<exists>u. find (\<lambda>u. u_id u = i) (users s) = Some u \<and> isShared u) \<longleftrightarrow>
        fst (getSharedView e (Valid i) s) = 200"
    using assms
    by (cases "find (\<lambda>u. u_id u = i) (users s)") (simp_all add: getSharedView_def brainNotFound_def)
next
  show "formatContent (populate ts (c\<lparr>embeddingId := r, userId := w\<rparr>)) = formatContent (populate ts c)"
    by (simp add: formatContent_def populate_def)
next
  show "si_tags (formatContent (populate ts c)) =
       map tag_title (List.map_filter (\<lambda>k. find (\<lambda>t. t_id t = k) ts) (tags c))"
    by (simp add: formatContent_def populate_def)
next
  show "si_id (formatContent (populate ts c)) = c_id c"
    by (simp add: formatContent_def populate_def)
next
  fix d v
  assume "reachable s" and d: "d \<in> set (contents s)" "embeddingId d = Some v"
  then have "contents_inv s" by (auto dest: reachable_inv simp: store_inv_def)
  with d have "c_id d = v" by (auto simp: contents_inv_def)
  then show "si_id (formatContent (populate (tagdocs s) d)) = v"
    by (simp add: formatContent_def populate_def)
qed

text \<open>
  The claim as stated fails: the view served for ann carries the id 2 of her document,
  which is the document's vector reference and the id of its vector in the index.
\<close>

theorem getSharedView_iff_shared_counterexample:
  "getSharedView quiet (Valid 1) with_accounts =
     (200, Brain ''ann''
        [\<lparr>si_id = 2, si_type = ''video'', si_link = ''https://youtu.be/abc12345678'',
          si_title = ''demo'', si_youtubeTitle = Some ''T'', si_youtubeDescription = Some ''D'',
          si_thumbnailUrl = Some [], si_tags = [''x'', ''y'']\<rparr>]) \<and>
   item_a \<in> set (contents with_accounts) \<and> userId item_a = 1 \<and> c_id item_a = 2 \<and>
   embeddingId item_a = Some 2 \<and>
   map v_id (vectors with_accounts) = [2, 3]"
  by code_simp

lemma with_accounts_built:
  "snd (addItem quiet 2 (demo_req ''dem'' [''x''])
     (snd (addItem quiet 1 (demo_req ''demo'' [''x'', ''y''])
        (init [\<lparr>u_id = 1, username = ''ann'', password = ''h1'', isShared = True\<rparr>,
               \<lparr>u_id = 2, username = ''bob'', password = ''h2'', isShared = False\<rparr>])))) =
   with_accounts"
  by code_simp

lemma with_accounts_reachable: "reachable with_accounts"
  using r_add[OF r_add[OF r_init], of quiet 2 "demo_req ''dem'' [''x'']" quiet 1
      "demo_req ''demo'' [''x'', ''y'']"
      "[\<lparr>u_id = 1, username = ''ann'', password = ''h1'', isShared = True\<rparr>,
        \<lparr>u_id = 2, username = ''bob'', password = ''h2'', isShared = False\<rparr>]"]
  by (simp only: with_accounts_built)

lemma with_accounts_view:
  "getSharedView quiet (Valid 1) with_accounts =
     (200, Brain ''ann''
        [\<lparr>si_id = 2, si_type = ''video'', si_link = ''https://youtu.be/abc12345678'',
          si_title = ''demo'', si_youtubeTitle = Some ''T'', si_youtubeDescription = Some ''D'',
          si_thumbnailUrl = Some [], si_tags = [''x'', ''y'']\<rparr>])"
  by code_simp

theorem getSharedView_iff_shared_witness:
  "\<not> fails quiet UserFindById \<and> \<not> fails quiet ContentFind \<and>
   find (\<lambda>u. u_id u = 1) (users with_accounts) =
     Some \<lparr>u_id = 1, username = ''ann'', password = ''h1'', isShared = True\<rparr> \<and>
   getSharedView quiet (Valid 1) with_accounts =
     (200, Brain ''ann''
        [\<lparr>si_id = 2, si_type = ''video'', si_link = ''https://youtu.be/abc12345678'',
          si_title = ''demo'', si_youtubeTitle = Some ''T'', si_youtubeDescription = Some ''D'',
          si_thumbnailUrl = Some [], si_tags = [''x'', ''y'']\<rparr>]) \<and>
   find (\<lambda>u. u_id u = 2) (users with_accounts) =
     Some \<lparr>u_id = 2, username = ''bob'', password = ''h2'', isShared = False\<rparr> \<and>
   getSharedView quiet (Valid 2) with_accounts =
     (404, Error ''Shared brain not found or sharing disabled.'') \<and>
   find (\<lambda>u. u_id u = 5) (users with_accounts) = None \<and>
   getSharedView quiet (Valid 5) with_accounts =
     (404, Error ''Shared brain not found or sharing disabled.'') \<and>
   reachable with_accounts \<and> item_a \<in> set (contents with_accounts) \<and>
   embeddingId item_a = Some 2 \<and>
   si_id (formatContent (populate (tagdocs with_accounts) item_a)) = 2"
proof -
  have h: "\<not> fails quiet UserFindById" "\<not> fails quiet ContentFind" by (simp_all add: quiet_def)
  have u1: "find (\<lambda>u. u_id u = 1) (users with_accounts) =
     Some \<lparr>u_id = 1, username = ''ann'', password = ''h1'', isShared = True\<rparr>"
    and u2: "find (\<lambda>u. u_id u = 2) (users with_accounts) =
     Some \<lparr>u_id = 2, username = ''bob'', password = ''h2'', isShared = False\<rparr>"
    and u5: "find (\<lambda>u. u_id u = 5) (users with_accounts) = None"
    by (simp_all add: with_accounts_def)
  have r: "reachable with_accounts" by (rule with_accounts_reachable)
  have a: "item_a \<in> set (contents with_accounts)" "embeddingId item_a = Some 2"
    by (simp_all add: with_accounts_def two_owners_def item_a_def)
  from getSharedView_iff_shared[OF h, of 2 with_accounts] u2
  have b: "getSharedView quiet (Valid 2) with_accounts =
     (404, Error ''Shared brain not found or sharing disabled.'')" by simp
  from getSharedView_iff_shared[OF h, of 5 with_accounts] u5
  have n: "getSharedView quiet (Valid 5) with_accounts =
     (404, Error ''Shared brain not found or sharing disabled.'')" by simp
  from getSharedView_iff_shared[OF h, of 1 with_accounts] r a
  have v: "si_id (formatContent (populate (tagdocs with_accounts) item_a)) = 2" by blast
  from h u1 u2 u5 b n r a v with_accounts_view show ?thesis by blast
qed

section \<open>Listing\<close>

text \<open>What the handler does clamp: the page from below, the page size from above.\<close>

lemma pageOf_ge_1: "1 \<le> pageOf q"
  by (simp add: pageOf_def)

lemma limitOf_le_8: "limitOf q \<le> 8"
  by (simp add: limitOf_def)

lemma limitOf_in_range: "0 \<le> n \<Longrightarrow> 1 \<le> limitOf (Some n) \<and> limitOf (Some n) \<le> 8"
  by (simp add: limitOf_def orDefault_def)

lemma limitOf_default: "limitOf None = 8 \<and> limitOf (Some 0) = 8 \<and> limitOf (Some 100) = 8"
  by (simp add: limitOf_def orDefault_def)

text \<open>
  Page 2 with a page size of 100: the documents of the owner from the 9th to the 16th,
  newest first.
\<close>

lemma listItems_second_page:
  assumes "\<not> fails e ContentFind" "\<not> fails e ContentCount"
  shows "\<exists>l. listItems e uid (Some 2) (Some 100) s = (200, Listing l) \<and>
     l_results l = map (populate (tagdocs s)) (take 8 (drop 8 (ownedNewestFirst uid s))) \<and>
     l_page l = 2"
  using assms
  by (simp add: listItems_def pageOf_def limitOf_def orDefault_def skip_limit_def Let_def)

lemma ownedNewestFirst_sorted: "sorted (rev (map c_id (ownedNewestFirst uid s)))"
  by (simp add: ownedNewestFirst_def rev_map)

text \<open>
  C5 (a defect of the code). A negative \<open>limit\<close> is not clamped: for \<open>limit=-5\<close> the handler
  computes a page size of -5, below 1, while the same parameter as \<open>page\<close> is raised to 1.
\<close>

theorem limitOf_negative:
  "limitOf (Some (- 5)) = - 5 \<and> \<not> (1 \<le> limitOf (Some (- 5))) \<and> pageOf (Some (- 5)) = 1"
  by (simp add: limitOf_def pageOf_def orDefault_def)

section \<open>Embedding client\<close>

text \<open>
  C10 (a defect of the code). Two callers that both enter \<open>getEmbedding\<close> before the
  first model load has completed each start a load of their own: the schedule in which
  they alternate ends with two calls of \<open>pipeline\<close>. When the first caller's load completes
  before the second caller enters, there is one.
\<close>

theorem getEmbedding_loads_twice:
  "pipeline_calls (run [0, 1, 0, 1, 0, 1] (fresh_process 2)) = 2 \<and>
   callers (run [0, 1, 0, 1, 0, 1] (fresh_process 2)) = [Returned, Returned] \<and>
   pipeline_calls (run [0, 0, 1, 0, 1] (fresh_process 2)) = 1"
  by code_simp

end
